theory Spec2Isabelle
  imports Main "HOL-Library.Sublist"
begin

section \<open>Python strings\<close>

text \<open>
  A Python \<open>str\<close> is a sequence of Unicode code points; a code point is modelled by its
  number (\<open>ord\<close>), a string by the list of its code points. The character classes used
  by \<open>str.strip\<close>, \<open>str.isdigit\<close>, \<open>int\<close> and the regular expression class \<open>\d\<close> are the
  ones of CPython 3.11 (Unicode 14.0.0). Integers are unbounded, as Python's are; the
  interpreter's configurable limit on the number of digits of a decimal literal and the
  limits of memory are not modelled.
\<close>

type_synonym uchar = nat
type_synonym pystr = "uchar list"

definition py_isspace :: "uchar \<Rightarrow> bool" where
  "py_isspace c \<longleftrightarrow>
     (9 \<le> c \<and> c \<le> 13) \<or> (28 \<le> c \<and> c \<le> 32) \<or> c = 133 \<or> c = 160 \<or> c = 5760 \<or>
     (8192 \<le> c \<and> c \<le> 8202) \<or> c = 8232 \<or> c = 8233 \<or> c = 8239 \<or> c = 8287 \<or> c = 12288"

text \<open>Every run of ten decimal digits of Unicode (category Nd) starts at one of these
  code points, with the values 0 to 9 in order.\<close>

definition nd_starts_beyond_ascii :: "uchar list" where
  "nd_starts_beyond_ascii =
    [1632, 1776, 1984, 2406, 2534, 2662, 2790, 2918, 3046, 3174, 3302, 3430, 3558, 3664,
     3792, 3872, 4160, 4240, 6112, 6160, 6470, 6608, 6784, 6800, 6992, 7088, 7232, 7248,
     42528, 43216, 43264, 43472, 43504, 43600, 44016, 65296, 66720, 68912, 69734, 69872,
     69942, 70096, 70384, 70736, 70864, 71248, 71360, 71472, 71904, 72016, 72784, 73040,
     73120, 92768, 92864, 93008, 120782, 120792, 120802, 120812, 120822, 123200, 123632,
     125264, 130032]"

fun run_value :: "uchar list \<Rightarrow> uchar \<Rightarrow> nat option" where
  "run_value [] c = None"
| "run_value (s # ss) c = (if s \<le> c \<and> c < s + 10 then Some (c - s) else run_value ss c)"

definition py_decimal :: "uchar \<Rightarrow> nat option" where
  "py_decimal c = (if 48 \<le> c \<and> c < 58 then Some (c - 48) else run_value nd_starts_beyond_ascii c)"

definition is_d :: "uchar \<Rightarrow> bool" where
  "is_d c \<longleftrightarrow> py_decimal c \<noteq> None"

text \<open>The characters of numeric type Digit that are not decimal digits (superscripts,
  circled digits and the like): \<open>str.isdigit\<close> accepts them, \<open>int\<close> does not.\<close>

definition other_digit_ranges :: "(uchar \<times> uchar) list" where
  "other_digit_ranges =
    [(178, 179), (185, 185), (4969, 4977), (6618, 6618), (8304, 8304), (8308, 8313),
     (8320, 8329), (9312, 9320), (9332, 9340), (9352, 9360), (9450, 9450), (9461, 9469),
     (9471, 9471), (10102, 10110), (10112, 10120), (10122, 10130), (68160, 68163),
     (69216, 69224), (69714, 69722), (127232, 127242)]"

definition isdigit_char :: "uchar \<Rightarrow> bool" where
  "isdigit_char c \<longleftrightarrow> is_d c \<or> list_ex (\<lambda>(lo, hi). lo \<le> c \<and> c \<le> hi) other_digit_ranges"

definition py_isdigit :: "pystr \<Rightarrow> bool" where
  "py_isdigit s \<longleftrightarrow> s \<noteq> [] \<and> list_all isdigit_char s"

definition strip_with :: "(uchar \<Rightarrow> bool) \<Rightarrow> pystr \<Rightarrow> pystr" where
  "strip_with sp s = rev (dropWhile sp (rev (dropWhile sp s)))"

definition py_strip :: "pystr \<Rightarrow> pystr" where
  "py_strip = strip_with py_isspace"

text \<open>\<open>sub in s\<close>.\<close>

fun py_in :: "pystr \<Rightarrow> pystr \<Rightarrow> bool" where
  "py_in sub [] = (sub = [])"
| "py_in sub (c # cs) = (prefix sub (c # cs) \<or> py_in sub cs)"

text \<open>\<open>s.replace(old, new)\<close> for a non-empty \<open>old\<close>, which is what every call of the
  program passes: the occurrences are replaced from left to right, without overlap.\<close>

function py_replace :: "pystr \<Rightarrow> pystr \<Rightarrow> pystr \<Rightarrow> pystr" where
  "py_replace old new [] = []"
| "py_replace old new (c # cs) =
     (if old \<noteq> [] \<and> prefix old (c # cs)
      then new @ py_replace old new (drop (length old) (c # cs))
      else c # py_replace old new cs)"
  by pat_completeness auto
termination
  by (relation "measure (\<lambda>(old, new, s). length s)") (auto simp: Suc_le_eq)

text \<open>\<open>s.split(sep)\<close> for a separator of one character.\<close>

fun py_split :: "uchar \<Rightarrow> pystr \<Rightarrow> pystr list" where
  "py_split sep [] = [[]]"
| "py_split sep (c # cs) =
     (if c = sep then [] # py_split sep cs
      else (case py_split sep cs of r # rs \<Rightarrow> (c # r) # rs | [] \<Rightarrow> [[c]]))"

subsection \<open>\<open>int(s)\<close> and \<open>str(n)\<close>\<close>

datatype exn = ValueError | IndexError | OverflowError

text \<open>The white space \<open>int\<close> skips at both ends: the ASCII one of C, and every Unicode
  space beyond ASCII.\<close>

definition int_space :: "uchar \<Rightarrow> bool" where
  "int_space c \<longleftrightarrow> (9 \<le> c \<and> c \<le> 13) \<or> c = 32 \<or> (128 \<le> c \<and> py_isspace c)"

text \<open>The digits after the first one: each is a decimal digit, or an underscore
  followed by a decimal digit.\<close>

fun int_body :: "nat \<Rightarrow> pystr \<Rightarrow> nat option" where
  "int_body acc [] = Some acc"
| "int_body acc [c] = (case py_decimal c of Some d \<Rightarrow> Some (10 * acc + d) | None \<Rightarrow> None)"
| "int_body acc (c # c' # cs) =
     (case py_decimal c of
        Some d \<Rightarrow> int_body (10 * acc + d) (c' # cs)
      | None \<Rightarrow>
          if c = 95 then
            (case py_decimal c' of Some d \<Rightarrow> int_body (10 * acc + d) cs | None \<Rightarrow> None)
          else None)"

definition int_unsigned :: "pystr \<Rightarrow> nat option" where
  "int_unsigned s =
     (case s of [] \<Rightarrow> None
      | c # cs \<Rightarrow> (case py_decimal c of Some d \<Rightarrow> int_body d cs | None \<Rightarrow> None))"

definition py_int :: "pystr \<Rightarrow> exn + int" where
  "py_int s =
     (let t = strip_with int_space s;
          r = (case t of
                 [] \<Rightarrow> None
               | c # cs \<Rightarrow>
                   if c = 43 then map_option int (int_unsigned cs)
                   else if c = 45 then map_option (\<lambda>n. - int n) (int_unsigned cs)
                   else map_option int (int_unsigned t))
      in case r of None \<Rightarrow> Inl ValueError | Some n \<Rightarrow> Inr n)"

fun str_nat :: "nat \<Rightarrow> pystr" where
  "str_nat n = (if n < 10 then [48 + n] else str_nat (n div 10) @ [48 + n mod 10])"

declare str_nat.simps [simp del]

definition str_int :: "int \<Rightarrow> pystr" where
  "str_int i = (if i < 0 then 45 # str_nat (nat (- i)) else str_nat (nat i))"

section \<open>Values of any type\<close>

text \<open>A value that may or may not be a string (a cell of the grid, an argument of a
  parser): \<open>None\<close>, a \<open>str\<close>, or a value of another type, of which the program only uses
  the truth value and the text \<open>str\<close> gives.\<close>

datatype pyobj = PyNone | PyStr pystr | PyOther bool pystr

fun truthy :: "pyobj \<Rightarrow> bool" where
  "truthy PyNone = False"
| "truthy (PyStr s) = (s \<noteq> [])"
| "truthy (PyOther b s) = b"

fun py_str :: "pyobj \<Rightarrow> pystr" where
  "py_str PyNone = [78, 111, 110, 101]"
| "py_str (PyStr s) = s"
| "py_str (PyOther b s) = s"

section \<open>The week expression parser\<close>

definition odd_week_marker :: pystr where "odd_week_marker = [21333, 21608]"
definition even_week_marker :: pystr where "even_week_marker = [21452, 21608]"
definition week_marker :: pystr where "week_marker = [21608]"

text \<open>What the program prints: the kind of message and the text it shows.\<close>

datatype diag =
    WeekParseError pystr
  | UnknownTimeSlot pystr
  | CellParseFailed pyobj
  | NoValidWeeks pystr
  | EventFailed

definition keep_week :: "bool \<Rightarrow> bool \<Rightarrow> int \<Rightarrow> bool" where
  "keep_week is_odd is_even week \<longleftrightarrow>
     (is_odd \<and> week mod 2 = 1) \<or> (is_even \<and> week mod 2 = 0) \<or> (\<not> is_odd \<and> \<not> is_even)"

text \<open>One turn of the loop over the parts: the weeks the part appends, or the exception
  (of \<open>int\<close>, or of unpacking other than two values).\<close>

definition parse_part :: "bool \<Rightarrow> bool \<Rightarrow> pystr \<Rightarrow> exn + int list" where
  "parse_part is_odd is_even part0 =
     (let part = py_strip part0 in
      if 45 \<in> set part then
        (case py_split 45 part of
           [a, b] \<Rightarrow>
             (case py_int a of
                Inl e \<Rightarrow> Inl e
              | Inr start \<Rightarrow>
                  (case py_int b of
                     Inl e \<Rightarrow> Inl e
                   | Inr end \<Rightarrow> Inr (filter (keep_week is_odd is_even) [start..end])))
         | _ \<Rightarrow> Inl ValueError)
      else if py_isdigit part then
        (case py_int part of
           Inl e \<Rightarrow> Inl e
         | Inr week \<Rightarrow> Inr (if keep_week is_odd is_even week then [week] else []))
      else Inr [])"

fun parse_parts :: "bool \<Rightarrow> bool \<Rightarrow> pystr list \<Rightarrow> int list \<Rightarrow> exn + int list" where
  "parse_parts is_odd is_even [] weeks = Inr weeks"
| "parse_parts is_odd is_even (p # ps) weeks =
     (case parse_part is_odd is_even p of
        Inl e \<Rightarrow> Inl e
      | Inr ws \<Rightarrow> parse_parts is_odd is_even ps (weeks @ ws))"

text \<open>The three replacements that take the markers out of the text.\<close>

definition without_markers :: "pystr \<Rightarrow> pystr" where
  "without_markers s1 =
     py_replace week_marker []
       (py_replace even_week_marker [] (py_replace odd_week_marker [] s1))"

text \<open>\<open>parse_weeks\<close>: the list it returns and what it prints (the message shows the
  text as it is after the replacements).\<close>

definition parse_weeks :: "pyobj \<Rightarrow> int list \<times> diag list" where
  "parse_weeks week_str =
     (case week_str of
        PyStr s \<Rightarrow>
          if s = [] then ([], [])
          else
            (let s1 = py_strip s;
                 is_odd = py_in odd_week_marker s1;
                 is_even = py_in even_week_marker s1;
                 s2 = without_markers s1
             in case parse_parts is_odd is_even (py_split 44 s2) [] of
                  Inr weeks \<Rightarrow> (sort (remdups weeks), [])
                | Inl e \<Rightarrow> ([], [WeekParseError s2]))
      | _ \<Rightarrow> ([], []))"

text \<open>Following the words of the specification: the weeks that a week expression
  lists, in ascending order and without duplicates, no odd or even filter applied (the
  loop of the program with both flags off).\<close>

definition listed_weeks :: "pystr \<Rightarrow> int list" where
  "listed_weeks s =
     (case parse_parts False False (py_split 44 (without_markers (py_strip s))) [] of
        Inr weeks \<Rightarrow> sort (remdups weeks)
      | Inl e \<Rightarrow> [])"

text \<open>Following the words of the specification: the text of a range of two numbers with
  a hyphen, and a list of texts joined with commas.\<close>

definition range_text :: "nat \<Rightarrow> nat \<Rightarrow> pystr" where
  "range_text a b = str_nat a @ [45] @ str_nat b"

fun join_commas :: "pystr list \<Rightarrow> pystr" where
  "join_commas [] = []"
| "join_commas [x] = x"
| "join_commas (x # y # r) = x @ [44] @ join_commas (y # r)"

section \<open>The regular expressions of the program\<close>

text \<open>
  Each pattern is written as the recogniser of its language. In all of them a run of
  \<open>\d+\<close> is followed by a character that is no digit (or by the end), so the only
  match takes the longest run of digits, which is what \<open>takeWhile\<close> and \<open>dropWhile\<close>
  compute. \<open>$\<close> matches at the end of the text and before a line feed that ends it.
\<close>

definition at_end :: "pystr \<Rightarrow> bool" where
  "at_end r \<longleftrightarrow> r = [] \<or> r = [10]"

text \<open>\<open>(\<dots>|\<dots>|\<dots>)?$\<close> with the three week markers.\<close>

definition week_suffix_end :: "pystr \<Rightarrow> bool" where
  "week_suffix_end r \<longleftrightarrow>
     at_end r \<or>
     list_ex (\<lambda>m. prefix m r \<and> at_end (drop (length m) r))
       [odd_week_marker, even_week_marker, week_marker]"

text \<open>\<open>re.match(r'^\d+-\d+', content)\<close>, and what is left of the text after the match.\<close>

definition range_prefix :: "pystr \<Rightarrow> pystr option" where
  "range_prefix content =
     (if takeWhile is_d content = [] then None
      else
        (case dropWhile is_d content of
           [] \<Rightarrow> None
         | c # r2 \<Rightarrow>
             if c = 45 \<and> takeWhile is_d r2 \<noteq> [] then Some (dropWhile is_d r2) else None))"

definition range_prefix_re :: "pystr \<Rightarrow> bool" where
  "range_prefix_re content \<longleftrightarrow> range_prefix content \<noteq> None"

text \<open>\<open>re.match(r'^(\d+-\d+|\d+)(\<dots>|\<dots>|\<dots>)?$', content)\<close>: the first alternative, or
  else the second one, followed by the optional marker and the end.\<close>

definition week_re :: "pystr \<Rightarrow> bool" where
  "week_re content \<longleftrightarrow>
     (case range_prefix content of None \<Rightarrow> False | Some r \<Rightarrow> week_suffix_end r) \<or>
     (takeWhile is_d content \<noteq> [] \<and> week_suffix_end (dropWhile is_d content))"

text \<open>\<open>re.match(r'^\d+-\d+\<dots>$', content)\<close> with the period marker.\<close>

definition time_re :: "pystr \<Rightarrow> bool" where
  "time_re content \<longleftrightarrow>
     (case range_prefix content of
        None \<Rightarrow> False
      | Some r \<Rightarrow> (case r of [] \<Rightarrow> False | c # r' \<Rightarrow> c = 33410 \<and> at_end r'))"

text \<open>\<open>re.match(r'^\d', content)\<close>.\<close>

definition starts_digit :: "pystr \<Rightarrow> bool" where
  "starts_digit content \<longleftrightarrow> (case content of [] \<Rightarrow> False | c # cs \<Rightarrow> is_d c)"

text \<open>\<open>re.sub(r'^\[|\]$', '', s)\<close>: an opening bracket at the start and a closing bracket
  at the end are removed.\<close>

fun drop_final_rbr :: "pystr \<Rightarrow> pystr" where
  "drop_final_rbr [] = []"
| "drop_final_rbr (c # cs) = (if c = 93 \<and> at_end cs then cs else c # drop_final_rbr cs)"

definition strip_brackets :: "pystr \<Rightarrow> pystr" where
  "strip_brackets s =
     (case s of [] \<Rightarrow> [] | c # cs \<Rightarrow> if c = 91 then drop_final_rbr cs else drop_final_rbr s)"

text \<open>\<open>re.findall(r'\[(.*?)\]', s)\<close>: from an opening bracket, the text up to the next
  closing bracket, which \<open>.\<close> reaches unless a line feed comes first; the search goes on
  after the closing bracket.\<close>

fun take_until_close :: "pystr \<Rightarrow> (pystr \<times> pystr) option" where
  "take_until_close [] = None"
| "take_until_close (c # cs) =
     (if c = 93 then Some ([], cs)
      else if c = 10 then None
      else (case take_until_close cs of None \<Rightarrow> None | Some (a, r) \<Rightarrow> Some (c # a, r)))"

lemma take_until_close_shorter: "take_until_close s = Some (a, r) \<Longrightarrow> length r < length s"
  by (induction s arbitrary: a r) (auto split: if_splits option.splits)

function findall_brackets :: "pystr \<Rightarrow> pystr list" where
  "findall_brackets [] = []"
| "findall_brackets (c # cs) =
     (if c = 91 then
        (case take_until_close cs of
           Some (a, r) \<Rightarrow> a # findall_brackets r
         | None \<Rightarrow> findall_brackets cs)
      else findall_brackets cs)"
  by pat_completeness auto
termination
  by (relation "measure length") (auto dest: take_until_close_shorter)

text \<open>\<open>re.search(r'\<dots>(\d+)-(\d+)\<dots>', s)\<close> with the two period markers: the two groups of
  the leftmost match.\<close>

definition period_at :: "pystr \<Rightarrow> (pystr \<times> pystr) option" where
  "period_at r =
     (case range_prefix r of
        None \<Rightarrow> None
      | Some r3 \<Rightarrow>
          (case r3 of
             [] \<Rightarrow> None
           | c # r4 \<Rightarrow>
               if c = 33410
               then Some (takeWhile is_d r, takeWhile is_d (tl (dropWhile is_d r)))
               else None))"

fun re_search_period :: "pystr \<Rightarrow> (pystr \<times> pystr) option" where
  "re_search_period [] = None"
| "re_search_period (c # cs) =
     (if c = 31532 then
        (case period_at cs of Some g \<Rightarrow> Some g | None \<Rightarrow> re_search_period cs)
      else re_search_period cs)"

section \<open>The course cell parser\<close>

record course_info =
  course_name :: pystr
  teacher :: pystr
  class_info :: pystr
  week_info :: pystr
  location :: pystr
  time_info :: pystr

definition location_keywords :: "pystr list" where
  "location_keywords = [[26635], [25945], [27004], [22253], [22330], [23454, 39564, 23460]]"

text \<open>One turn of the loop over the bracket contents.\<close>

definition classify :: "course_info \<Rightarrow> pystr \<Rightarrow> course_info" where
  "classify result content =
     (if week_re content then result\<lparr>week_info := content\<rparr>
      else if time_re content then result\<lparr>time_info := content\<rparr>
      else if list_ex (\<lambda>keyword. py_in keyword content) location_keywords
        then result\<lparr>location := content\<rparr>
      else if week_info result = [] \<and> starts_digit content then result\<lparr>week_info := content\<rparr>
      else if time_info result = [] \<and> range_prefix_re content then result\<lparr>time_info := content\<rparr>
      else result\<lparr>location := content\<rparr>)"

text \<open>The non-blank lines of a cell, stripped.\<close>

definition cell_lines :: "pystr \<Rightarrow> pystr list" where
  "cell_lines cell_content =
     filter (\<lambda>line. line \<noteq> [])
       (map py_strip (py_split 10 (py_strip (py_replace [13, 10] [10] cell_content))))"

text \<open>No operation of the body raises on a string, so the handler of the \<open>try\<close> is never
  entered and the function prints nothing.\<close>

definition parse_course_info :: "pyobj \<Rightarrow> course_info option" where
  "parse_course_info cell_content =
     (case cell_content of
        PyStr s \<Rightarrow>
          if s = [] \<or> py_strip s = [] then None
          else
            (let lines = cell_lines s in
             if length lines < 4 then None
             else
               Some (foldl classify
                 \<lparr>course_name = py_strip (hd (py_split 91 (lines ! 0))),
                  teacher = strip_brackets (lines ! 1),
                  class_info = strip_brackets (lines ! 2),
                  week_info = [], location = [], time_info = []\<rparr>
                 (findall_brackets (lines ! 3))))
      | _ \<Rightarrow> None)"

section \<open>Dates and times\<close>

text \<open>A \<open>datetime\<close> is the ordinal of its day in the proleptic Gregorian calendar (day 1
  is 0001-01-01), an hour and a minute; the program leaves the seconds at zero.\<close>

record datetime =
  ordinal :: int
  hour :: nat
  minute :: nat

definition is_leap :: "int \<Rightarrow> bool" where
  "is_leap y \<longleftrightarrow> y mod 4 = 0 \<and> (y mod 100 \<noteq> 0 \<or> y mod 400 = 0)"

definition days_before_year :: "int \<Rightarrow> int" where
  "days_before_year y = (y - 1) * 365 + (y - 1) div 4 - (y - 1) div 100 + (y - 1) div 400"

definition days_before_month :: "int \<Rightarrow> nat \<Rightarrow> int" where
  "days_before_month y m =
     [0, 31, 59, 90, 120, 151, 181, 212, 243, 273, 304, 334] ! (m - 1) +
     (if 2 < m \<and> is_leap y then 1 else 0)"

definition ymd2ord :: "int \<Rightarrow> nat \<Rightarrow> int \<Rightarrow> int" where
  "ymd2ord y m d = days_before_year y + days_before_month y m + d"

text \<open>\<open>datetime(y, m, d)\<close> for a valid date, at midnight.\<close>

definition mk_datetime :: "int \<Rightarrow> nat \<Rightarrow> int \<Rightarrow> datetime" where
  "mk_datetime y m d = \<lparr>ordinal = ymd2ord y m d, hour = 0, minute = 0\<rparr>"

text \<open>\<open>weekday()\<close>: Monday is 0.\<close>

definition weekday_of :: "datetime \<Rightarrow> int" where
  "weekday_of dt = (ordinal dt + 6) mod 7"

definition max_ordinal :: int where "max_ordinal = 3652059"
definition max_delta_days :: int where "max_delta_days = 999999999"

text \<open>\<open>dt + timedelta(weeks=w, days=d)\<close>: a \<open>timedelta\<close> beyond its range of days and a
  date beyond the years 1 to 9999 raise \<open>OverflowError\<close>.\<close>

definition add_timedelta :: "datetime \<Rightarrow> int \<Rightarrow> int \<Rightarrow> exn + datetime" where
  "add_timedelta dt w d =
     (let delta = 7 * w + d in
      if delta < - max_delta_days \<or> max_delta_days < delta then Inl OverflowError
      else if ordinal dt + delta < 1 \<or> max_ordinal < ordinal dt + delta then Inl OverflowError
      else Inr (dt\<lparr>ordinal := ordinal dt + delta\<rparr>))"

section \<open>The schedule expander\<close>

definition semester_start :: datetime where
  "semester_start = mk_datetime 2025 2 17"

definition weekday_map :: "pystr \<rightharpoonup> int" where
  "weekday_map = map_of
     [([26143, 26399, 19968], 0), ([26143, 26399, 20108], 1), ([26143, 26399, 19977], 2),
      ([26143, 26399, 22235], 3), ([26143, 26399, 20116], 4), ([26143, 26399, 20845], 5),
      ([26143, 26399, 26085], 6)]"

definition class_time_map :: "pystr \<rightharpoonup> nat \<times> nat \<times> nat \<times> nat" where
  "class_time_map = map_of
     [([49, 45, 50, 33410], (8, 0, 9, 50)),
      ([51, 45, 52, 33410], (10, 10, 12, 0)),
      ([53, 45, 54, 33410], (14, 0, 15, 50)),
      ([55, 45, 56, 33410], (16, 0, 17, 50)),
      ([57, 45, 49, 48, 33410], (19, 0, 20, 50))]"

text \<open>An event as the program fills it; the stamp of the moment of creation is left out.\<close>

record event =
  summary :: pystr
  description :: pystr
  ev_location :: pystr
  dtstart :: datetime
  dtend :: datetime

text \<open>The calendar so far and what was printed so far; \<open>event_count\<close> is the number of
  events.\<close>

record run_state =
  events :: "event list"
  printed :: "diag list"

definition event_count :: "run_state \<Rightarrow> nat" where
  "event_count st = length (events st)"

type_synonym grid = "pyobj list list"

text \<open>\<open>df.iloc[i, j]\<close> for indices that are not negative.\<close>

definition iloc :: "grid \<Rightarrow> nat \<Rightarrow> nat \<Rightarrow> exn + pyobj" where
  "iloc df i j =
     (if i < length df \<and> j < length (df ! i) then Inr (df ! i ! j) else Inl IndexError)"

text \<open>The text of the description: the labels are the five of the program, each followed
  by a colon and a space, on lines of their own.\<close>

definition describe :: "course_info \<Rightarrow> int \<Rightarrow> pystr \<Rightarrow> pystr" where
  "describe ci week time_key =
     [25945, 24072, 58, 32] @ teacher ci @
     [10, 29677, 32423, 58, 32] @ class_info ci @
     [10, 21608, 27425, 58, 32, 31532] @ str_int week @ [21608] @
     [10, 26102, 38388, 58, 32] @ time_key @
     [10, 22320, 28857, 58, 32] @ location ci"

text \<open>The body of the \<open>try\<close> for one week.\<close>

definition make_event ::
    "course_info \<Rightarrow> int \<Rightarrow> pystr \<Rightarrow> nat \<times> nat \<times> nat \<times> nat \<Rightarrow> int \<Rightarrow> exn + event" where
  "make_event ci offset time_key clock week =
     (case add_timedelta semester_start (week - 1) offset of
        Inl e \<Rightarrow> Inl e
      | Inr course_date \<Rightarrow>
          (case clock of (start_h, start_m, end_h, end_m) \<Rightarrow>
             Inr \<lparr>summary = course_name ci,
                  description = describe ci week time_key,
                  ev_location = location ci,
                  dtstart = course_date\<lparr>hour := start_h, minute := start_m\<rparr>,
                  dtend = course_date\<lparr>hour := end_h, minute := end_m\<rparr>\<rparr>))"

fun weeks_loop ::
    "course_info \<Rightarrow> int \<Rightarrow> pystr \<Rightarrow> nat \<times> nat \<times> nat \<times> nat \<Rightarrow> int list \<Rightarrow> run_state \<Rightarrow> run_state" where
  "weeks_loop ci offset time_key clock [] st = st"
| "weeks_loop ci offset time_key clock (week # weeks) st =
     weeks_loop ci offset time_key clock weeks
       (case make_event ci offset time_key clock week of
          Inr ev \<Rightarrow> st\<lparr>events := events st @ [ev]\<rparr>
        | Inl e \<Rightarrow> st\<lparr>printed := printed st @ [EventFailed]\<rparr>)"

text \<open>One cell of a body row, under a weekday that the table knows.\<close>

definition process_cell ::
    "int \<Rightarrow> pystr \<Rightarrow> nat \<times> nat \<times> nat \<times> nat \<Rightarrow> pyobj \<Rightarrow> run_state \<Rightarrow> run_state" where
  "process_cell offset time_key clock cell_content st =
     (if \<not> truthy cell_content \<or> py_strip (py_str cell_content) = [] then st
      else
        (case parse_course_info cell_content of
           None \<Rightarrow> st\<lparr>printed := printed st @ [CellParseFailed cell_content]\<rparr>
         | Some ci \<Rightarrow>
             (case parse_weeks (PyStr (week_info ci)) of
                (weeks, msgs) \<Rightarrow>
                  if weeks = []
                  then st\<lparr>printed := printed st @ msgs @ [NoValidWeeks (week_info ci)]\<rparr>
                  else weeks_loop ci offset time_key clock weeks
                         (st\<lparr>printed := printed st @ msgs\<rparr>))))"

text \<open>The loop over the columns 1 to 7 of one body row.\<close>

fun cols_loop ::
    "grid \<Rightarrow> nat \<Rightarrow> pystr \<Rightarrow> nat \<times> nat \<times> nat \<times> nat \<Rightarrow> nat list \<Rightarrow> run_state \<Rightarrow> exn + run_state" where
  "cols_loop df row_idx time_key clock [] st = Inr st"
| "cols_loop df row_idx time_key clock (col_idx # cols) st =
     (case iloc df 2 col_idx of
        Inl e \<Rightarrow> Inl e
      | Inr weekday \<Rightarrow>
          (case (case weekday of PyStr w \<Rightarrow> if w = [] then None else weekday_map w
                 | _ \<Rightarrow> None) of
             None \<Rightarrow> cols_loop df row_idx time_key clock cols st
           | Some offset \<Rightarrow>
               (case iloc df row_idx col_idx of
                  Inl e \<Rightarrow> Inl e
                | Inr cell_content \<Rightarrow>
                    cols_loop df row_idx time_key clock cols
                      (process_cell offset time_key clock cell_content st))))"

text \<open>One turn of the loop over the body rows.\<close>

definition process_row :: "grid \<Rightarrow> nat \<Rightarrow> run_state \<Rightarrow> exn + run_state" where
  "process_row df row_idx st =
     (case iloc df row_idx 0 of
        Inl e \<Rightarrow> Inl e
      | Inr time_slot \<Rightarrow>
          if \<not> truthy time_slot \<or> 31532 \<notin> set (py_str time_slot) then Inr st
          else
            (case re_search_period (py_str time_slot) of
               None \<Rightarrow> Inr st
             | Some (g1, g2) \<Rightarrow>
                 if g1 = g2 then Inr st
                 else
                   (let time_key = g1 @ [45] @ g2 @ [33410] in
                    case class_time_map time_key of
                      None \<Rightarrow> Inr (st\<lparr>printed := printed st @ [UnknownTimeSlot (py_str time_slot)]\<rparr>)
                    | Some clock \<Rightarrow> cols_loop df row_idx time_key clock [1..<8] st)))"

fun rows_loop :: "grid \<Rightarrow> nat list \<Rightarrow> run_state \<Rightarrow> exn + run_state" where
  "rows_loop df [] st = Inr st"
| "rows_loop df (row_idx # rows) st =
     (case process_row df row_idx st of
        Inl e \<Rightarrow> Inl e
      | Inr st' \<Rightarrow> rows_loop df rows st')"

text \<open>\<open>create_ical_from_excel\<close> from the grid that was read to the calendar that is
  written: the reading of the workbook and the writing of the file are left out.\<close>

definition create_ical :: "grid \<Rightarrow> exn + run_state" where
  "create_ical df = rows_loop df [3..<length df] \<lparr>events = [], printed = []\<rparr>"

section \<open>Example inputs\<close>

text \<open>The cell of the example: the course name, the teacher, the class, and the line of
  details with the weeks 1 to 16, the room and the periods 1 to 2.\<close>

definition example_cell :: pystr where
  "example_cell =
     [39640, 31561, 25968, 23398, 10,
      91, 24352, 32769, 24072, 93, 10,
      91, 35745, 31639, 26426, 50, 51, 48, 49, 93, 10,
      91, 49, 45, 49, 54, 21608, 93, 91, 25945, 19977, 45, 51, 48, 49, 93,
      91, 49, 45, 50, 33410, 93]"

text \<open>A cell of four lines whose first line is in brackets, as the other lines are.\<close>

definition example_bracket_name :: pystr where
  "example_bracket_name =
     [91, 20307, 32946, 93, 10, 91, 29579, 32769, 24072, 93, 10,
      91, 35745, 31639, 26426, 50, 51, 48, 49, 93, 10, 91, 49, 45, 49, 54, 21608, 93]"

text \<open>The cell of the example with two bracket contents on its line of details: the
  weeks 1 to 16, then the list of the weeks 1 to 8 and 10 to 16.\<close>

definition example_two_weeks :: pystr where
  "example_two_weeks =
     [39640, 31561, 25968, 23398, 10,
      91, 24352, 32769, 24072, 93, 10,
      91, 35745, 31639, 26426, 50, 51, 48, 49, 93, 10,
      91, 49, 45, 49, 54, 21608, 93,
      91, 49, 45, 56, 44, 49, 48, 45, 49, 54, 21608, 93]"

text \<open>The cell of the example with the list of the weeks 1 to 8 and 10 to 16 as the first
  bracket content of its line of details.\<close>

definition example_week_list :: pystr where
  "example_week_list =
     [39640, 31561, 25968, 23398, 10,
      91, 24352, 32769, 24072, 93, 10,
      91, 35745, 31639, 26426, 50, 51, 48, 49, 93, 10,
      91, 49, 45, 56, 44, 49, 48, 45, 49, 54, 21608, 93,
      91, 25945, 19977, 45, 51, 48, 49, 93, 91, 49, 45, 50, 33410, 93]"

text \<open>Grids of four rows: two rows that the program never reads, the row of the seven
  weekdays, and one body row with a period label and a cell under Monday.\<close>

definition blank_row :: "pyobj list" where
  "blank_row = replicate 8 PyNone"

definition weekday_row :: "pyobj list" where
  "weekday_row =
     [PyNone, PyStr [26143, 26399, 19968], PyStr [26143, 26399, 20108],
      PyStr [26143, 26399, 19977], PyStr [26143, 26399, 22235], PyStr [26143, 26399, 20116],
      PyStr [26143, 26399, 20845], PyStr [26143, 26399, 26085]]"

definition body_row :: "pystr \<Rightarrow> pystr \<Rightarrow> pyobj list" where
  "body_row label cell = [PyStr label, PyStr cell] @ replicate 6 PyNone"

definition example_grid :: grid where
  "example_grid =
     [blank_row, blank_row, weekday_row, body_row [31532, 49, 45, 50, 33410] example_cell]"

definition example_grid_single_period :: grid where
  "example_grid_single_period =
     [blank_row, blank_row, weekday_row, body_row [31532, 49, 45, 49, 33410] example_cell]"

definition example_grid_unknown_slot :: grid where
  "example_grid_unknown_slot =
     [blank_row, blank_row, weekday_row,
      body_row [31532, 49, 49, 45, 49, 50, 33410] example_cell,
      body_row [31532, 49, 45, 50, 33410] example_cell]"

text \<open>The grid with the cell of the example under Wednesday, in the row of the
  periods 3 to 4.\<close>

definition example_grid_wednesday :: grid where
  "example_grid_wednesday =
     [blank_row, blank_row, weekday_row,
      [PyStr [31532, 51, 45, 52, 33410], PyNone, PyNone, PyStr example_cell,
       PyNone, PyNone, PyNone, PyNone]]"

text \<open>The grid of the example with the row label of the periods 01 to 1 (the same
  number, written in two ways), and with the row label of the periods 3 to 3.\<close>

definition example_grid_leading_zero :: grid where
  "example_grid_leading_zero =
     [blank_row, blank_row, weekday_row, body_row [31532, 48, 49, 45, 49, 33410] example_cell]"

definition example_grid_period_3_3 :: grid where
  "example_grid_period_3_3 =
     [blank_row, blank_row, weekday_row, body_row [31532, 51, 45, 51, 33410] example_cell]"

text \<open>Following the words of the specification: the event that its example expects for
  the week \<open>w\<close>, on the Monday \<open>w - 1\<close> weeks after the day 739299 (2025-02-17), from 08:00
  to 09:50, with the five lines of the description.\<close>

definition expected_example_event :: "int \<Rightarrow> event" where
  "expected_example_event w =
     \<lparr>summary = [39640, 31561, 25968, 23398],
      description =
        [25945, 24072, 58, 32, 24352, 32769, 24072, 10,
         29677, 32423, 58, 32, 35745, 31639, 26426, 50, 51, 48, 49, 10,
         21608, 27425, 58, 32, 31532] @ str_int w @
        [21608, 10, 26102, 38388, 58, 32, 49, 45, 50, 33410, 10,
         22320, 28857, 58, 32, 25945, 19977, 45, 51, 48, 49],
      ev_location = [25945, 19977, 45, 51, 48, 49],
      dtstart = \<lparr>ordinal = 739299 + 7 * (w - 1), hour = 8, minute = 0\<rparr>,
      dtend = \<lparr>ordinal = 739299 + 7 * (w - 1), hour = 9, minute = 50\<rparr>\<rparr>"

text \<open>The same event for the grid with the cell under Wednesday in the row of the
  periods 3 to 4: two days later, from 10:10 to 12:00.\<close>

definition expected_wednesday_event :: "int \<Rightarrow> event" where
  "expected_wednesday_event w =
     \<lparr>summary = [39640, 31561, 25968, 23398],
      description =
        [25945, 24072, 58, 32, 24352, 32769, 24072, 10,
         29677, 32423, 58, 32, 35745, 31639, 26426, 50, 51, 48, 49, 10,
         21608, 27425, 58, 32, 31532] @ str_int w @
        [21608, 10, 26102, 38388, 58, 32, 51, 45, 52, 33410, 10,
         22320, 28857, 58, 32, 25945, 19977, 45, 51, 48, 49],
      ev_location = [25945, 19977, 45, 51, 48, 49],
      dtstart = \<lparr>ordinal = 739299 + 7 * (w - 1) + 2, hour = 10, minute = 10\<rparr>,
      dtend = \<lparr>ordinal = 739299 + 7 * (w - 1) + 2, hour = 12, minute = 0\<rparr>\<rparr>"

text \<open>Week expressions: the weeks 1 to 4 with both markers; a list whose second part
  is not a number; a range with three numbers.\<close>

definition example_both_markers :: pystr where
  "example_both_markers = [49, 45, 52, 21333, 21608, 21452, 21608]"

definition example_bad_part :: pystr where
  "example_bad_part = [49, 45, 51, 44, 120, 45, 53]"

definition example_bad_range :: pystr where
  "example_bad_range = [49, 45, 50, 45, 51]"

text \<open>The cell of two lines of the example: a course name and a teacher.\<close>

definition example_short :: pystr where
  "example_short = [20307, 32946, 10, 91, 29579, 32769, 24072, 93]"

section \<open>Facts about the character classes\<close>

lemma py_decimal_ascii: "48 \<le> c \<Longrightarrow> c < 58 \<Longrightarrow> py_decimal c = Some (c - 48)"
  by (simp add: py_decimal_def)

lemma py_decimal_below: "c < 48 \<Longrightarrow> py_decimal c = None"
  by (simp add: py_decimal_def nd_starts_beyond_ascii_def)

lemma py_decimal_mid: "58 \<le> c \<Longrightarrow> c < 1632 \<Longrightarrow> py_decimal c = None"
  by (simp add: py_decimal_def nd_starts_beyond_ascii_def)

lemma py_decimal_cjk: "7258 \<le> c \<Longrightarrow> c < 42528 \<Longrightarrow> py_decimal c = None"
  by (simp add: py_decimal_def nd_starts_beyond_ascii_def)

lemmas char_eval = py_decimal_ascii py_decimal_below py_decimal_mid py_decimal_cjk
  is_d_def py_isspace_def int_space_def

lemmas eval_defs = char_eval
  parse_weeks_def without_markers_def py_strip_def strip_with_def odd_week_marker_def
  even_week_marker_def week_marker_def parse_part_def py_int_def int_unsigned_def
  keep_week_def py_isdigit_def isdigit_char_def
  parse_course_info_def cell_lines_def classify_def week_re_def time_re_def range_prefix_def
  range_prefix_re_def starts_digit_def strip_brackets_def at_end_def week_suffix_end_def
  location_keywords_def period_at_def

section \<open>Facts about the string operations\<close>

lemma py_replace_all:
  "\<forall>c\<in>set new. P c \<Longrightarrow> \<forall>c\<in>set t. P c \<Longrightarrow> \<forall>c\<in>set (py_replace old new t). P c"
proof (induction old new t rule: py_replace.induct)
  case (1 old new)
  then show ?case by simp
next
  case (2 old new c cs)
  show ?case
  proof (cases "old \<noteq> [] \<and> prefix old (c # cs)")
    case True
    have "\<forall>x\<in>set (drop (length old) (c # cs)). P x"
      using "2.prems"(2) by (meson in_set_dropD)
    with True "2.IH"(1) "2.prems"(1) show ?thesis by auto
  next
    case False
    with "2.IH"(2) "2.prems" show ?thesis by auto
  qed
qed

lemma all_space_strip: "(\<forall>c\<in>set s. sp c) \<Longrightarrow> strip_with sp s = []"
  by (auto simp: strip_with_def dest: set_dropWhileD)

lemma strip_empty_all_space: "strip_with sp s = [] \<Longrightarrow> \<forall>c\<in>set s. sp c"
proof -
  assume a: "strip_with sp s = []"
  then have d: "\<forall>c\<in>set (dropWhile sp s). sp c"
    by (simp add: strip_with_def)
  have t: "\<forall>c\<in>set (takeWhile sp s). sp c"
    by (auto dest: set_takeWhileD)
  have "set s = set (takeWhile sp s) \<union> set (dropWhile sp s)"
    using set_append [of "takeWhile sp s" "dropWhile sp s"] by simp
  with d t show ?thesis by blast
qed

lemma cell_lines_blank: "py_strip s = [] \<Longrightarrow> cell_lines s = []"
proof -
  assume a: "py_strip s = []"
  then have sp: "\<forall>c\<in>set s. py_isspace c"
    unfolding py_strip_def by (rule strip_empty_all_space)
  have "\<forall>c\<in>set [10::nat]. py_isspace c" by (simp add: py_isspace_def)
  from py_replace_all [of "[10]" py_isspace s "[13, 10]", OF this sp]
  have r: "py_strip (py_replace [13, 10] [10] s) = []"
    unfolding py_strip_def by (rule all_space_strip)
  have e: "py_strip [] = []"
    by (simp add: py_strip_def strip_with_def)
  show ?thesis
    by (simp add: cell_lines_def r e)
qed

section \<open>The course cell parser: lines\<close>

text \<open>
  Claim C7. A cell whose text has fewer than four non-blank lines, after the line endings
  are unified, the lines stripped and the blank ones dropped, is not parsed:
  \<open>parse_course_info\<close> returns \<open>None\<close> and no partial record. The cell of the
  course name and the teacher alone is the example.
\<close>

theorem fewer_than_four_lines_none:
  "length (cell_lines s) < 4 \<Longrightarrow> parse_course_info (PyStr s) = None"
  by (simp add: parse_course_info_def)

theorem fewer_than_four_lines_none_witness:
  "length (cell_lines example_short) < 4 \<and> parse_course_info (PyStr example_short) = None"
proof -
  have h: "length (cell_lines example_short) < 4"
    by (simp add: example_short_def cell_lines_def py_strip_def strip_with_def py_isspace_def)
  from h fewer_than_four_lines_none [OF h] show ?thesis by simp
qed

lemma cell_lines_example: "cell_lines example_cell =
    [[39640, 31561, 25968, 23398], [91, 24352, 32769, 24072, 93],
     [91, 35745, 31639, 26426, 50, 51, 48, 49, 93],
     [91, 49, 45, 49, 54, 21608, 93, 91, 25945, 19977, 45, 51, 48, 49, 93,
      91, 49, 45, 50, 33410, 93]]"
  by (simp add: example_cell_def cell_lines_def py_strip_def strip_with_def py_isspace_def)

lemma cell_lines_example_more: "cell_lines (example_cell @ [10, 120, 121]) =
    [[39640, 31561, 25968, 23398], [91, 24352, 32769, 24072, 93],
     [91, 35745, 31639, 26426, 50, 51, 48, 49, 93],
     [91, 49, 45, 49, 54, 21608, 93, 91, 25945, 19977, 45, 51, 48, 49, 93,
      91, 49, 45, 50, 33410, 93], [120, 121]]"
  by (simp add: example_cell_def cell_lines_def py_strip_def strip_with_def py_isspace_def)

lemma blank_cell_short: "s = [] \<or> py_strip s = [] \<Longrightarrow> length (cell_lines s) < 4"
proof -
  assume "s = [] \<or> py_strip s = []"
  then have "py_strip s = []" by (auto simp: py_strip_def strip_with_def)
  then show ?thesis by (simp add: cell_lines_blank)
qed

lemma parse_course_info_lines:
  "\<not> length (cell_lines s) < 4 \<Longrightarrow>
   parse_course_info (PyStr s) =
     Some (foldl classify
             \<lparr>course_name = py_strip (hd (py_split 91 (cell_lines s ! 0))),
              teacher = strip_brackets (cell_lines s ! 1),
              class_info = strip_brackets (cell_lines s ! 2),
              week_info = [], location = [], time_info = []\<rparr>
             (findall_brackets (cell_lines s ! 3)))"
proof -
  assume l: "\<not> length (cell_lines s) < 4"
  with blank_cell_short have "\<not> (s = [] \<or> py_strip s = [])" by blast
  with l show ?thesis unfolding parse_course_info_def Let_def by simp
qed

text \<open>
  Claim C10. The fields in brackets are read from the fourth non-blank line only: two
  cell texts with the same first four non-blank lines get the same result from
  \<open>parse_course_info\<close>, so no line after the fourth has any influence.
\<close>

theorem only_first_four_lines_matter:
  "take 4 (cell_lines a) = take 4 (cell_lines b) \<Longrightarrow>
   parse_course_info (PyStr a) = parse_course_info (PyStr b)"
proof -
  assume eq: "take 4 (cell_lines a) = take 4 (cell_lines b)"
  have "length (take 4 (cell_lines a)) = length (take 4 (cell_lines b))"
    using eq by simp
  then have len: "length (cell_lines a) < 4 \<longleftrightarrow> length (cell_lines b) < 4"
    by (simp add: min_def split: if_splits)
  show ?thesis
  proof (cases "length (cell_lines a) < 4")
    case True
    with len show ?thesis by (simp add: parse_course_info_def)
  next
    case False
    with len have lb: "\<not> length (cell_lines b) < 4" by simp
    have nth: "\<And>i. i < 4 \<Longrightarrow> cell_lines a ! i = cell_lines b ! i"
    proof -
      fix i :: nat assume i: "i < 4"
      have "take 4 (cell_lines a) ! i = take 4 (cell_lines b) ! i" using eq by simp
      with i show "cell_lines a ! i = cell_lines b ! i" by simp
    qed
    have n0: "cell_lines a ! 0 = cell_lines b ! 0" using nth [of 0] by simp
    have n1: "cell_lines a ! 1 = cell_lines b ! 1" using nth [of 1] by simp
    have n2: "cell_lines a ! 2 = cell_lines b ! 2" using nth [of 2] by simp
    have n3: "cell_lines a ! 3 = cell_lines b ! 3" using nth [of 3] by simp
    show ?thesis
      unfolding parse_course_info_lines [OF False] parse_course_info_lines [OF lb] n0 n1 n2 n3 ..
  qed
qed

theorem only_first_four_lines_matter_witness:
  "take 4 (cell_lines example_cell) = take 4 (cell_lines (example_cell @ [10, 120, 121])) \<and>
   cell_lines example_cell \<noteq> cell_lines (example_cell @ [10, 120, 121]) \<and>
   parse_course_info (PyStr example_cell) =
     parse_course_info (PyStr (example_cell @ [10, 120, 121]))"
proof -
  have h: "take 4 (cell_lines example_cell) = take 4 (cell_lines (example_cell @ [10, 120, 121]))"
    by (simp add: cell_lines_example cell_lines_example_more)
  have d: "cell_lines example_cell \<noteq> cell_lines (example_cell @ [10, 120, 121])"
    by (simp add: cell_lines_example cell_lines_example_more)
  from h d only_first_four_lines_matter [OF h] show ?thesis by blast
qed

section \<open>The course cell parser: the course name\<close>

lemma strip_with_prefix: "\<exists>w. dropWhile sp x = strip_with sp x @ w"
proof -
  have "rev (dropWhile sp x) = takeWhile sp (rev (dropWhile sp x)) @ dropWhile sp (rev (dropWhile sp x))"
    by simp
  then have "dropWhile sp x =
      rev (dropWhile sp (rev (dropWhile sp x))) @ rev (takeWhile sp (rev (dropWhile sp x)))"
    by (metis rev_append rev_rev_ident)
  then show ?thesis unfolding strip_with_def by blast
qed

lemma strip_with_hd: "strip_with sp x \<noteq> [] \<Longrightarrow> \<not> sp (hd (strip_with sp x))"
proof -
  assume n: "strip_with sp x \<noteq> []"
  obtain w where w: "dropWhile sp x = strip_with sp x @ w"
    using strip_with_prefix by blast
  with n have "dropWhile sp x \<noteq> []" by simp
  then have "\<not> sp (hd (dropWhile sp x))" by (rule hd_dropWhile)
  with w n show ?thesis by simp
qed

lemma strip_with_keeps: "t \<noteq> [] \<Longrightarrow> \<not> sp (hd t) \<Longrightarrow> strip_with sp t \<noteq> []"
proof -
  assume t: "t \<noteq> []" and h: "\<not> sp (hd t)"
  then have d: "dropWhile sp t = t" by (cases t) auto
  from t h have "\<exists>c\<in>set (rev t). \<not> sp c" by (cases t) auto
  then have "dropWhile sp (rev t) \<noteq> []" by (simp add: dropWhile_eq_Nil_conv)
  with d show ?thesis by (simp add: strip_with_def)
qed

lemma py_split_not_Nil: "py_split sep l \<noteq> []"
  by (induction l) (auto split: list.splits)

lemma hd_py_split: "hd (py_split sep l) = takeWhile (\<lambda>c. c \<noteq> sep) l"
  by (induction l) (auto split: list.splits simp: py_split_not_Nil)

lemma cell_lines_stripped:
  "l \<in> set (cell_lines s) \<Longrightarrow> l \<noteq> [] \<and> \<not> py_isspace (hd l)"
proof -
  assume "l \<in> set (cell_lines s)"
  then obtain x where "l = py_strip x" and "l \<noteq> []"
    by (auto simp: cell_lines_def)
  then show ?thesis using strip_with_hd [of py_isspace x] by (simp add: py_strip_def)
qed

lemma course_name_classify: "course_name (classify r c) = course_name r"
  by (simp add: classify_def)

lemma course_name_foldl_classify: "course_name (foldl classify r cs) = course_name r"
  by (induction cs arbitrary: r) (simp_all add: course_name_classify)

lemma short_cell_none: "length (cell_lines s) < 4 \<Longrightarrow> parse_course_info (PyStr s) = None"
  by (simp add: parse_course_info_def)

lemma parse_example_cell: "parse_course_info (PyStr example_cell) =
  Some \<lparr>course_name = [39640, 31561, 25968, 23398], teacher = [24352, 32769, 24072],
        class_info = [35745, 31639, 26426, 50, 51, 48, 49],
        week_info = [49, 45, 49, 54, 21608], location = [25945, 19977, 45, 51, 48, 49],
        time_info = [49, 45, 50, 33410]\<rparr>"
  by (simp add: example_cell_def eval_defs)

lemma parse_example_bracket_name: "parse_course_info (PyStr example_bracket_name) =
  Some \<lparr>course_name = [], teacher = [29579, 32769, 24072],
        class_info = [35745, 31639, 26426, 50, 51, 48, 49],
        week_info = [49, 45, 49, 54, 21608], location = [], time_info = []\<rparr>"
  by (simp add: example_bracket_name_def eval_defs)

text \<open>
  Claim C6, as amended. When \<open>parse_course_info\<close> returns a record, its course name is
  the text of the first non-blank line before the first opening bracket of that line,
  stripped. Nothing checks that it is not empty: it is empty exactly when that line begins
  with an opening bracket, and so it is non-empty for every cell whose first non-blank
  line does not begin with a bracket.
\<close>

theorem course_name_empty_iff_bracket_first:
  "parse_course_info (PyStr s) = Some r \<Longrightarrow>
   course_name r = py_strip (takeWhile (\<lambda>c. c \<noteq> 91) (hd (cell_lines s))) \<and>
   (course_name r = [] \<longleftrightarrow> hd (hd (cell_lines s)) = 91)"
proof -
  assume p: "parse_course_info (PyStr s) = Some r"
  have l: "\<not> length (cell_lines s) < 4"
    using p short_cell_none by auto
  define l0 where "l0 = cell_lines s ! 0"
  from l have "0 < length (cell_lines s)" by linarith
  then have "l0 \<in> set (cell_lines s)"
    unfolding l0_def by (rule nth_mem)
  then have l0: "l0 \<noteq> []" "\<not> py_isspace (hd l0)"
    using cell_lines_stripped by blast+
  from l have hd0: "hd (cell_lines s) = l0"
    unfolding l0_def by (cases "cell_lines s") auto
  from p have cn: "course_name r = py_strip (takeWhile (\<lambda>c. c \<noteq> 91) l0)"
    unfolding parse_course_info_lines [OF l] l0_def
    by (auto simp: course_name_foldl_classify hd_py_split)
  have "py_strip (takeWhile (\<lambda>c. c \<noteq> 91) l0) = [] \<longleftrightarrow> hd l0 = 91"
  proof (cases "hd l0 = 91")
    case True
    with l0 have "takeWhile (\<lambda>c. c \<noteq> 91) l0 = []" by (cases l0) auto
    with True show ?thesis by (simp add: py_strip_def strip_with_def)
  next
    case False
    with l0 have "takeWhile (\<lambda>c. c \<noteq> 91) l0 \<noteq> []"
      and "hd (takeWhile (\<lambda>c. c \<noteq> 91) l0) = hd l0" by (cases l0; simp)+
    with l0 have "py_strip (takeWhile (\<lambda>c. c \<noteq> 91) l0) \<noteq> []"
      unfolding py_strip_def by (simp add: strip_with_keeps)
    with False show ?thesis by simp
  qed
  with cn show ?thesis unfolding hd0 by simp
qed

theorem course_name_empty_iff_bracket_first_witness:
  "parse_course_info (PyStr example_cell) =
     Some \<lparr>course_name = [39640, 31561, 25968, 23398], teacher = [24352, 32769, 24072],
        class_info = [35745, 31639, 26426, 50, 51, 48, 49],
        week_info = [49, 45, 49, 54, 21608], location = [25945, 19977, 45, 51, 48, 49],
        time_info = [49, 45, 50, 33410]\<rparr> \<and>
   py_strip (takeWhile (\<lambda>c. c \<noteq> 91) (hd (cell_lines example_cell))) =
     [39640, 31561, 25968, 23398] \<and>
   hd (hd (cell_lines example_cell)) \<noteq> 91"
  using course_name_empty_iff_bracket_first [OF parse_example_cell] parse_example_cell
  by simp

text \<open>
  Claim C6, as stated, fails: the cell whose first line is the course name in brackets is
  parsed to a record, and the course name of the record is the empty string.
\<close>

theorem course_name_empty_counterexample:
  "parse_course_info (PyStr example_bracket_name) =
     Some \<lparr>course_name = [], teacher = [29579, 32769, 24072],
        class_info = [35745, 31639, 26426, 50, 51, 48, 49],
        week_info = [49, 45, 49, 54, 21608], location = [], time_info = []\<rparr> \<and>
   course_name \<lparr>course_name = [], teacher = [29579, 32769, 24072],
        class_info = [35745, 31639, 26426, 50, 51, 48, 49],
        week_info = [49, 45, 49, 54, 21608], location = [], time_info = []\<rparr> = []"
  by (simp add: example_bracket_name_def eval_defs)

section \<open>The course cell parser: the rule of the weeks\<close>

lemma not_digit_chars:
  "\<not> is_d 10" "\<not> is_d 44" "\<not> is_d 45" "\<not> is_d 21333" "\<not> is_d 21452" "\<not> is_d 21608"
  "\<not> is_d 33410" "\<not> is_d 31532"
  by (simp_all add: char_eval)

lemma span_digits:
  "list_all is_d ds \<Longrightarrow> rest = [] \<or> \<not> is_d (hd rest) \<Longrightarrow>
   takeWhile is_d (ds @ rest) = ds \<and> dropWhile is_d (ds @ rest) = rest"
  by (cases rest) (auto simp: list_all_iff takeWhile_append2 dropWhile_append2)

lemma week_suffix_end_markers:
  "sfx \<in> set [[], odd_week_marker, even_week_marker, week_marker] \<Longrightarrow> week_suffix_end sfx"
  by (auto simp: week_suffix_end_def at_end_def odd_week_marker_def even_week_marker_def
      week_marker_def)

lemma marker_no_digit_first:
  "sfx \<in> set [[], odd_week_marker, even_week_marker, week_marker] \<Longrightarrow>
   sfx = [] \<or> \<not> is_d (hd sfx)"
  by (auto simp: odd_week_marker_def even_week_marker_def week_marker_def not_digit_chars)

lemma week_re_single:
  assumes "ds \<noteq> []" "list_all is_d ds"
    and "sfx \<in> set [[], odd_week_marker, even_week_marker, week_marker]"
  shows "week_re (ds @ sfx)"
proof -
  from span_digits [OF assms(2) marker_no_digit_first [OF assms(3)]]
  have "takeWhile is_d (ds @ sfx) = ds" "dropWhile is_d (ds @ sfx) = sfx" by simp_all
  with assms(1) week_suffix_end_markers [OF assms(3)] show ?thesis
    by (simp add: week_re_def)
qed

lemma range_prefix_range:
  assumes "ds1 \<noteq> []" "list_all is_d ds1" "ds2 \<noteq> []" "list_all is_d ds2"
    and "rest = [] \<or> \<not> is_d (hd rest)"
  shows "range_prefix (ds1 @ 45 # ds2 @ rest) = Some rest"
proof -
  have a: "takeWhile is_d (ds1 @ 45 # ds2 @ rest) = ds1"
    "dropWhile is_d (ds1 @ 45 # ds2 @ rest) = 45 # ds2 @ rest"
    using span_digits [OF assms(2), of "45 # ds2 @ rest"] by (simp_all add: not_digit_chars)
  have b: "takeWhile is_d (ds2 @ rest) = ds2" "dropWhile is_d (ds2 @ rest) = rest"
    using span_digits [OF assms(4) assms(5)] by simp_all
  show ?thesis using assms(1) assms(3) by (simp add: range_prefix_def a b)
qed

lemma week_re_range:
  assumes "ds1 \<noteq> []" "list_all is_d ds1" "ds2 \<noteq> []" "list_all is_d ds2"
    and "sfx \<in> set [[], odd_week_marker, even_week_marker, week_marker]"
  shows "week_re (ds1 @ 45 # ds2 @ sfx)"
  using range_prefix_range [OF assms(1-4) marker_no_digit_first [OF assms(5)]]
    week_suffix_end_markers [OF assms(5)]
  by (simp add: week_re_def)

lemma range_prefix_Some:
  assumes "range_prefix c = Some r"
  shows "\<exists>d1 d2. c = d1 @ 45 # d2 @ r \<and> list_all is_d d1 \<and> list_all is_d d2"
proof -
  obtain r2 where r2: "dropWhile is_d c = 45 # r2" and r: "r = dropWhile is_d r2"
    using assms by (auto simp: range_prefix_def split: if_splits list.splits)
  have "c = takeWhile is_d c @ dropWhile is_d c" by simp
  also have "\<dots> = takeWhile is_d c @ 45 # takeWhile is_d r2 @ dropWhile is_d r2"
    using r2 by simp
  finally have "c = takeWhile is_d c @ 45 # takeWhile is_d r2 @ r" using r by simp
  moreover have "list_all is_d (takeWhile is_d c)" "list_all is_d (takeWhile is_d r2)"
    by (auto simp: list_all_iff dest: set_takeWhileD)
  ultimately show ?thesis by blast
qed

lemma week_suffix_end_chars:
  "week_suffix_end r \<Longrightarrow> 44 \<notin> set r"
proof -
  assume w: "week_suffix_end r"
  have pre: "\<And>m. prefix m r \<Longrightarrow> r = m @ drop (length m) r"
    by (auto simp: prefix_def)
  from w consider "at_end r"
    | m where "m \<in> set [odd_week_marker, even_week_marker, week_marker]"
        "prefix m r" "at_end (drop (length m) r)"
    by (auto simp: week_suffix_end_def)
  then show ?thesis
  proof cases
    case 1
    then show ?thesis by (auto simp: at_end_def)
  next
    case 2
    from pre [OF 2(2)] have "set r = set m \<union> set (drop (length m) r)"
      by (metis set_append)
    with 2(1) 2(3) show ?thesis
      by (auto simp: at_end_def odd_week_marker_def even_week_marker_def week_marker_def)
  qed
qed

lemma digits_no_comma: "list_all is_d d \<Longrightarrow> 44 \<notin> set d"
  using not_digit_chars(2) by (auto simp: list_all_iff)

lemma comma_not_week_re: "44 \<in> set c \<Longrightarrow> \<not> week_re c"
proof
  assume c: "44 \<in> set c" and w: "week_re c"
  from w consider r where "range_prefix c = Some r" "week_suffix_end r"
    | "week_suffix_end (dropWhile is_d c)"
    by (auto simp: week_re_def split: option.splits)
  then show False
  proof cases
    case 1
    from range_prefix_Some [OF 1(1)] obtain d1 d2 where
      "c = d1 @ 45 # d2 @ r" "list_all is_d d1" "list_all is_d d2" by blast
    with c digits_no_comma week_suffix_end_chars [OF 1(2)] show False by auto
  next
    case 2
    have "c = takeWhile is_d c @ dropWhile is_d c" by simp
    then have "set c = set (takeWhile is_d c) \<union> set (dropWhile is_d c)"
      by (metis set_append)
    moreover have "44 \<notin> set (takeWhile is_d c)"
      using not_digit_chars(2) by (auto dest: set_takeWhileD)
    ultimately show False using c week_suffix_end_chars [OF 2] by blast
  qed
qed

lemma comma_not_time_re: "44 \<in> set c \<Longrightarrow> \<not> time_re c"
proof
  assume c: "44 \<in> set c" and w: "time_re c"
  then obtain r r' where r: "range_prefix c = Some r" "r = 33410 # r'" "at_end r'"
    by (auto simp: time_re_def split: option.splits list.splits)
  from range_prefix_Some [OF r(1)] obtain d1 d2 where
    "c = d1 @ 45 # d2 @ r" "list_all is_d d1" "list_all is_d d2" by blast
  with c digits_no_comma r(2) r(3) show False by (auto simp: at_end_def)
qed

lemma classify_comma:
  "44 \<in> set c \<Longrightarrow>
   classify r c =
     (if list_ex (\<lambda>keyword. py_in keyword c) location_keywords then r\<lparr>location := c\<rparr>
      else if week_info r = [] \<and> starts_digit c then r\<lparr>week_info := c\<rparr>
      else if time_info r = [] \<and> range_prefix_re c then r\<lparr>time_info := c\<rparr>
      else r\<lparr>location := c\<rparr>)"
  using comma_not_week_re [of c] comma_not_time_re [of c] by (simp add: classify_def)

lemma week_info_kept:
  "week_info r \<noteq> [] \<Longrightarrow> \<not> week_re x \<Longrightarrow> week_info (classify r x) = week_info r"
  by (simp add: classify_def)

lemma week_info_kept_foldl:
  "week_info r \<noteq> [] \<Longrightarrow> \<forall>x\<in>set cs. \<not> week_re x \<Longrightarrow>
   week_info (foldl classify r cs) = week_info r"
proof (induction cs arbitrary: r)
  case Nil
  then show ?case by simp
next
  case (Cons x cs)
  from Cons.prems have k: "week_info (classify r x) = week_info r"
    by (simp add: week_info_kept)
  with Cons.prems have "week_info (classify r x) \<noteq> []" by simp
  from Cons.IH [OF this] Cons.prems k show ?case by simp
qed

lemma week_info_after_match:
  assumes "week_re w" "w \<noteq> []" "\<forall>x\<in>set cs. \<not> week_re x"
  shows "week_info (foldl classify r (bs @ w # cs)) = w"
proof -
  have "week_info (classify (foldl classify r bs) w) = w"
    using assms(1) by (simp add: classify_def)
  with assms(2) week_info_kept_foldl [OF _ assms(3), of "classify (foldl classify r bs) w"]
  show ?thesis by simp
qed

lemma parse_some_lines:
  "parse_course_info (PyStr s) = Some p \<Longrightarrow>
   p = foldl classify
         \<lparr>course_name = py_strip (hd (py_split 91 (cell_lines s ! 0))),
          teacher = strip_brackets (cell_lines s ! 1),
          class_info = strip_brackets (cell_lines s ! 2),
          week_info = [], location = [], time_info = []\<rparr>
         (findall_brackets (cell_lines s ! 3))"
proof -
  assume p: "parse_course_info (PyStr s) = Some p"
  then have "\<not> length (cell_lines s) < 4" using short_cell_none by auto
  from parse_course_info_lines [OF this] p show ?thesis by simp
qed

lemma parse_example_week_list: "parse_course_info (PyStr example_week_list) =
     Some \<lparr>course_name = [39640, 31561, 25968, 23398], teacher = [24352, 32769, 24072],
        class_info = [35745, 31639, 26426, 50, 51, 48, 49],
        week_info = [49, 45, 56, 44, 49, 48, 45, 49, 54, 21608],
        location = [25945, 19977, 45, 51, 48, 49],
        time_info = [49, 45, 50, 33410]\<rparr>"
  by (simp add: example_week_list_def eval_defs)

lemma parse_example_two_weeks: "parse_course_info (PyStr example_two_weeks) =
     Some \<lparr>course_name = [39640, 31561, 25968, 23398], teacher = [24352, 32769, 24072],
        class_info = [35745, 31639, 26426, 50, 51, 48, 49],
        week_info = [49, 45, 49, 54, 21608], location = [],
        time_info = [49, 45, 56, 44, 49, 48, 45, 49, 54, 21608]\<rparr>"
  by (simp add: example_two_weeks_def eval_defs)

lemma brackets_example_two_weeks:
  "findall_brackets (cell_lines example_two_weeks ! 3) =
     [] @ [49, 45, 49, 54, 21608] # [[49, 45, 56, 44, 49, 48, 45, 49, 54, 21608]]"
  by (simp add: example_two_weeks_def cell_lines_def py_strip_def strip_with_def py_isspace_def)

lemma brackets_example_week_list:
  "findall_brackets (cell_lines example_week_list ! 3) =
     [49, 45, 56, 44, 49, 48, 45, 49, 54, 21608] #
     [[25945, 19977, 45, 51, 48, 49], [49, 45, 50, 33410]]"
  by (simp add: example_week_list_def cell_lines_def py_strip_def strip_with_def py_isspace_def)

lemma example_rest_not_week:
  "\<not> week_re [49, 45, 56, 44, 49, 48, 45, 49, 54, 21608]"
  "\<not> week_re [25945, 19977, 45, 51, 48, 49]" "\<not> week_re [49, 45, 50, 33410]"
  "starts_digit [49, 45, 56, 44, 49, 48, 45, 49, 54, 21608]"
  "\<not> list_ex (\<lambda>keyword. py_in keyword [49, 45, 56, 44, 49, 48, 45, 49, 54, 21608])
       location_keywords"
  by (simp_all add: eval_defs)

text \<open>
  Claim C5, as amended. A bracket content that is one integer or one range of two
  integers with a hyphen, followed by nothing or by one of the three week markers, matches
  the first rule and becomes \<open>week_info\<close>, whatever the fields hold; in the record that
  \<open>parse_course_info\<close> returns, \<open>week_info\<close> is that content when no later bracket of
  the line of details matches the first rule. A content with a comma never matches the
  first rule. It is classified by the rules three to six alone, so it becomes
  \<open>week_info\<close> exactly when \<open>week_info\<close> is still empty, it starts with a digit and it
  holds no keyword of a location (the fourth rule), and it leaves \<open>week_info\<close> as it is
  otherwise; as the first bracket of the line of details, a content with a comma that
  starts with a digit and holds no keyword of a location is the \<open>week_info\<close> of the
  record when no later bracket matches the first rule.
\<close>

theorem week_rule_single_part_only:
  "ds1 \<noteq> [] \<Longrightarrow> list_all is_d ds1 \<Longrightarrow> ds2 \<noteq> [] \<Longrightarrow> list_all is_d ds2 \<Longrightarrow>
   sfx \<in> set [[], odd_week_marker, even_week_marker, week_marker] \<Longrightarrow>
   classify r (ds1 @ sfx) = r\<lparr>week_info := ds1 @ sfx\<rparr> \<and>
   classify r (ds1 @ 45 # ds2 @ sfx) = r\<lparr>week_info := ds1 @ 45 # ds2 @ sfx\<rparr> \<and>
   (44 \<in> set c \<longrightarrow>
      \<not> week_re c \<and>
      classify r c =
        (if list_ex (\<lambda>keyword. py_in keyword c) location_keywords then r\<lparr>location := c\<rparr>
         else if week_info r = [] \<and> starts_digit c then r\<lparr>week_info := c\<rparr>
         else if time_info r = [] \<and> range_prefix_re c then r\<lparr>time_info := c\<rparr>
         else r\<lparr>location := c\<rparr>) \<and>
      week_info (classify r c) =
        (if week_info r = [] \<and> starts_digit c \<and>
            \<not> list_ex (\<lambda>keyword. py_in keyword c) location_keywords
         then c else week_info r)) \<and>
   (parse_course_info (PyStr s) = Some p \<longrightarrow>
    findall_brackets (cell_lines s ! 3) = bs @ w # cs \<longrightarrow>
    w = ds1 @ sfx \<or> w = ds1 @ 45 # ds2 @ sfx \<longrightarrow>
    (\<forall>x\<in>set cs. \<not> week_re x) \<longrightarrow> week_info p = w) \<and>
   (parse_course_info (PyStr s') = Some p' \<longrightarrow>
    findall_brackets (cell_lines s' ! 3) = c # cs' \<longrightarrow>
    44 \<in> set c \<longrightarrow> starts_digit c \<longrightarrow>
    \<not> list_ex (\<lambda>keyword. py_in keyword c) location_keywords \<longrightarrow>
    (\<forall>x\<in>set cs'. \<not> week_re x) \<longrightarrow> week_info p' = c)"
proof -
  assume a: "ds1 \<noteq> []" "list_all is_d ds1" "ds2 \<noteq> []" "list_all is_d ds2"
    "sfx \<in> set [[], odd_week_marker, even_week_marker, week_marker]"
  have w1: "week_re (ds1 @ sfx)" using week_re_single [OF a(1,2,5)] .
  have w2: "week_re (ds1 @ 45 # ds2 @ sfx)" using week_re_range [OF a] .
  have c1: "classify r (ds1 @ sfx) = r\<lparr>week_info := ds1 @ sfx\<rparr>"
    using w1 by (simp add: classify_def)
  have c2: "classify r (ds1 @ 45 # ds2 @ sfx) = r\<lparr>week_info := ds1 @ 45 # ds2 @ sfx\<rparr>"
    using w2 by (simp add: classify_def)
  have c3: "44 \<in> set c \<longrightarrow>
      \<not> week_re c \<and>
      classify r c =
        (if list_ex (\<lambda>keyword. py_in keyword c) location_keywords then r\<lparr>location := c\<rparr>
         else if week_info r = [] \<and> starts_digit c then r\<lparr>week_info := c\<rparr>
         else if time_info r = [] \<and> range_prefix_re c then r\<lparr>time_info := c\<rparr>
         else r\<lparr>location := c\<rparr>) \<and>
      week_info (classify r c) =
        (if week_info r = [] \<and> starts_digit c \<and>
            \<not> list_ex (\<lambda>keyword. py_in keyword c) location_keywords
         then c else week_info r)"
    using comma_not_week_re [of c] classify_comma [of c r] by simp
  have p1: "parse_course_info (PyStr s) = Some p \<longrightarrow>
    findall_brackets (cell_lines s ! 3) = bs @ w # cs \<longrightarrow>
    w = ds1 @ sfx \<or> w = ds1 @ 45 # ds2 @ sfx \<longrightarrow>
    (\<forall>x\<in>set cs. \<not> week_re x) \<longrightarrow> week_info p = w"
  proof (intro impI)
    assume p: "parse_course_info (PyStr s) = Some p"
      and f: "findall_brackets (cell_lines s ! 3) = bs @ w # cs"
      and w: "w = ds1 @ sfx \<or> w = ds1 @ 45 # ds2 @ sfx"
      and n: "\<forall>x\<in>set cs. \<not> week_re x"
    from w w1 w2 a(1) have "week_re w" "w \<noteq> []" by auto
    from week_info_after_match [OF this n] parse_some_lines [OF p] f
    show "week_info p = w" by simp
  qed
  have p2: "parse_course_info (PyStr s') = Some p' \<longrightarrow>
    findall_brackets (cell_lines s' ! 3) = c # cs' \<longrightarrow>
    44 \<in> set c \<longrightarrow> starts_digit c \<longrightarrow>
    \<not> list_ex (\<lambda>keyword. py_in keyword c) location_keywords \<longrightarrow>
    (\<forall>x\<in>set cs'. \<not> week_re x) \<longrightarrow> week_info p' = c"
  proof (intro impI)
    assume p: "parse_course_info (PyStr s') = Some p'"
      and f: "findall_brackets (cell_lines s' ! 3) = c # cs'"
      and c: "44 \<in> set c" "starts_digit c"
        "\<not> list_ex (\<lambda>keyword. py_in keyword c) location_keywords"
      and n: "\<forall>x\<in>set cs'. \<not> week_re x"
    let ?init = "\<lparr>course_name = py_strip (hd (py_split 91 (cell_lines s' ! 0))),
          teacher = strip_brackets (cell_lines s' ! 1),
          class_info = strip_brackets (cell_lines s' ! 2),
          week_info = [], location = [], time_info = []\<rparr>"
    from c have k: "week_info (classify ?init c) = c"
      by (simp add: classify_comma)
    from c(1) have "c \<noteq> []" by auto
    with k have "week_info (classify ?init c) \<noteq> []" by simp
    from week_info_kept_foldl [OF this n] k parse_some_lines [OF p] f
    show "week_info p' = c" by simp
  qed
  from c1 c2 c3 p1 p2 show ?thesis by blast
qed

theorem week_rule_single_part_only_witness:
  "classify \<lparr>course_name = [], teacher = [], class_info = [], week_info = [],
       location = [25945], time_info = [49, 45, 50, 33410]\<rparr> ([49] @ week_marker) =
     \<lparr>course_name = [], teacher = [], class_info = [], week_info = [49, 21608],
       location = [25945], time_info = [49, 45, 50, 33410]\<rparr> \<and>
   classify \<lparr>course_name = [], teacher = [], class_info = [], week_info = [],
       location = [25945], time_info = [49, 45, 50, 33410]\<rparr>
       [49, 45, 56, 44, 49, 48, 45, 49, 54, 21608] =
     \<lparr>course_name = [], teacher = [], class_info = [],
       week_info = [49, 45, 56, 44, 49, 48, 45, 49, 54, 21608],
       location = [25945], time_info = [49, 45, 50, 33410]\<rparr> \<and>
   \<not> week_re [49, 45, 56, 44, 49, 48, 45, 49, 54, 21608] \<and>
   week_info (classify \<lparr>course_name = [], teacher = [], class_info = [],
       week_info = [49, 21608], location = [25945], time_info = []\<rparr>
       [49, 45, 56, 44, 49, 48, 45, 49, 54, 21608]) = [49, 21608] \<and>
   map_option week_info (parse_course_info (PyStr example_two_weeks)) =
     Some [49, 45, 49, 54, 21608] \<and>
   map_option week_info (parse_course_info (PyStr example_week_list)) =
     Some [49, 45, 56, 44, 49, 48, 45, 49, 54, 21608]"
proof -
  let ?c = "[49, 45, 56, 44, 49, 48, 45, 49, 54, 21608::nat]"
  let ?r0 = "\<lparr>course_name = [], teacher = [], class_info = [], week_info = [],
       location = [25945], time_info = [49, 45, 50, 33410]\<rparr>"
  let ?r1 = "\<lparr>course_name = [], teacher = [], class_info = [],
       week_info = [49, 21608], location = [25945], time_info = []\<rparr>"
  let ?p = "\<lparr>course_name = [39640, 31561, 25968, 23398], teacher = [24352, 32769, 24072],
        class_info = [35745, 31639, 26426, 50, 51, 48, 49],
        week_info = [49, 45, 49, 54, 21608], location = [],
        time_info = [49, 45, 56, 44, 49, 48, 45, 49, 54, 21608]\<rparr>"
  let ?p' = "\<lparr>course_name = [39640, 31561, 25968, 23398], teacher = [24352, 32769, 24072],
        class_info = [35745, 31639, 26426, 50, 51, 48, 49],
        week_info = [49, 45, 56, 44, 49, 48, 45, 49, 54, 21608],
        location = [25945, 19977, 45, 51, 48, 49],
        time_info = [49, 45, 50, 33410]\<rparr>"
  have d: "list_all is_d [49]" "list_all is_d [49, 54]"
    by (simp_all add: char_eval)
  have m: "week_marker \<in> set [[], odd_week_marker, even_week_marker, week_marker]"
    by simp
  have c: "44 \<in> set ?c" by simp
  have w: "[49, 45, 49, 54, 21608] = [49] @ week_marker \<or>
      [49, 45, 49, 54, 21608] = [49] @ 45 # [49, 54] @ week_marker"
    by (simp add: week_marker_def)
  have n: "\<forall>x\<in>set [?c]. \<not> week_re x"
    "\<forall>x\<in>set [[25945, 19977, 45, 51, 48, 49], [49, 45, 50, 33410]]. \<not> week_re x"
    using example_rest_not_week(1-3) by simp_all
  have a: "parse_course_info (PyStr example_two_weeks) = Some ?p"
    by (rule parse_example_two_weeks)
  have b: "parse_course_info (PyStr example_week_list) = Some ?p'"
    by (rule parse_example_week_list)
  from week_rule_single_part_only [of "[49]" "[49, 54]" week_marker ?r0 ?c
      example_two_weeks ?p "[]" "[49, 45, 49, 54, 21608]" "[?c]"
      example_week_list ?p' "[[25945, 19977, 45, 51, 48, 49], [49, 45, 50, 33410]]",
      OF _ d(1) _ d(2) m]
    week_rule_single_part_only [of "[49]" "[49, 54]" week_marker ?r1 ?c
      example_two_weeks ?p "[]" "[49, 45, 49, 54, 21608]" "[?c]"
      example_week_list ?p' "[[25945, 19977, 45, 51, 48, 49], [49, 45, 50, 33410]]",
      OF _ d(1) _ d(2) m]
    c w n a b brackets_example_two_weeks brackets_example_week_list
    example_rest_not_week(4,5)
  show ?thesis by (simp add: week_marker_def)
qed

text \<open>
  Claim C5, as stated, fails on its own example: the list of the weeks 1 to 8 and 10 to
  16 with the week marker does not match the first rule, and in the cell where it follows
  the bracket of the weeks 1 to 16 it is assigned to \<open>time_info\<close>, not to \<open>week_info\<close>.
\<close>

theorem comma_list_not_week_rule_counterexample:
  "\<not> week_re [49, 45, 56, 44, 49, 48, 45, 49, 54, 21608] \<and>
   parse_course_info (PyStr example_two_weeks) =
     Some \<lparr>course_name = [39640, 31561, 25968, 23398], teacher = [24352, 32769, 24072],
        class_info = [35745, 31639, 26426, 50, 51, 48, 49],
        week_info = [49, 45, 49, 54, 21608], location = [],
        time_info = [49, 45, 56, 44, 49, 48, 45, 49, 54, 21608]\<rparr>"
  by (simp add: example_two_weeks_def eval_defs)

section \<open>The schedule expander: one cell\<close>

lemma semester_start_ordinal: "ordinal semester_start = 739299"
  by (simp add: semester_start_def mk_datetime_def ymd2ord_def days_before_year_def
      days_before_month_def is_leap_def)

lemma make_event_in_range:
  assumes "1 \<le> ordinal semester_start + 7 * (w - 1) + off"
    and "ordinal semester_start + 7 * (w - 1) + off \<le> max_ordinal"
  shows "make_event ci off k (sh, sm, eh, em) w =
     Inr \<lparr>summary = course_name ci, description = describe ci w k,
          ev_location = location ci,
          dtstart = \<lparr>ordinal = ordinal semester_start + 7 * (w - 1) + off,
                      hour = sh, minute = sm\<rparr>,
          dtend = \<lparr>ordinal = ordinal semester_start + 7 * (w - 1) + off,
                    hour = eh, minute = em\<rparr>\<rparr>"
proof -
  from assms have "\<not> (7 * (w - 1) + off < - max_delta_days \<or> max_delta_days < 7 * (w - 1) + off)"
    by (simp add: semester_start_ordinal max_ordinal_def max_delta_days_def)
  with assms show ?thesis
    by (simp add: make_event_def add_timedelta_def Let_def)
qed

lemma weeks_loop_events:
  "\<forall>w\<in>set ws. make_event ci off k c w = Inr (f w) \<Longrightarrow>
   events (weeks_loop ci off k c ws st) = events st @ map f ws"
  by (induction ws arbitrary: st) auto

lemma parse_some_guard:
  "parse_course_info cell = Some ci \<Longrightarrow> truthy cell \<and> py_strip (py_str cell) \<noteq> []"
  by (auto simp: parse_course_info_def split: pyobj.splits if_splits)

lemma process_cell_events:
  assumes "parse_course_info cell = Some ci"
    and "parse_weeks (PyStr (week_info ci)) = (weeks, msgs)"
    and "\<forall>w\<in>set weeks. make_event ci off k c w = Inr (f w)"
  shows "events (process_cell off k c cell st) = events st @ map f weeks"
  using parse_some_guard [OF assms(1)] assms(1,2) weeks_loop_events [OF assms(3)]
  by (simp add: process_cell_def)

lemma parse_weeks_example:
  "parse_weeks (PyStr [49, 45, 49, 54, 21608]) =
     ([1, 2, 3, 4, 5, 6, 7, 8, 9, 10, 11, 12, 13, 14, 15, 16], [])"
  by (simp add: eval_defs upto.simps)

lemma upto_1_16: "[1..16] = [1, 2, 3, 4, 5, 6, 7, 8, 9, 10, 11, 12, 13, 14, 15, 16::int]"
  by (simp add: upto.simps)

lemma py_in_prefix: "prefix sub s \<Longrightarrow> py_in sub s"
  by (cases s) auto

lemma py_in_self_append: "py_in sub (sub @ b)"
  by (rule py_in_prefix) simp

lemma py_in_middle: "py_in sub (a @ sub @ b)"
proof (induction a)
  case Nil
  show ?case using py_in_self_append by simp
next
  case (Cons x a)
  then show ?case by simp
qed

lemma make_event_out_of_range:
  assumes "\<not> (1 \<le> ordinal semester_start + 7 * (w - 1) + off \<and>
               ordinal semester_start + 7 * (w - 1) + off \<le> max_ordinal)"
  shows "make_event ci off k c w = Inl OverflowError"
  using assms by (auto simp: make_event_def add_timedelta_def Let_def)

lemma weeks_loop_events_filter:
  assumes "\<And>w. ok w \<Longrightarrow> make_event ci off k c w = Inr (f w)"
    and "\<And>w. \<not> ok w \<Longrightarrow> make_event ci off k c w = Inl OverflowError"
  shows "events (weeks_loop ci off k c ws st) = events st @ map f (filter ok ws)"
proof (induction ws arbitrary: st)
  case Nil
  show ?case by simp
next
  case (Cons w ws)
  show ?case
  proof (cases "ok w")
    case True
    with assms(1) [of w] Cons.IH show ?thesis by simp
  next
    case False
    with assms(2) [of w] Cons.IH show ?thesis by simp
  qed
qed

lemma weeks_loop_all_ok:
  "\<forall>w\<in>set ws. make_event ci off k c w = Inr (f w) \<Longrightarrow>
   weeks_loop ci off k c ws st = st\<lparr>events := events st @ map f ws\<rparr>"
  by (induction ws arbitrary: st) auto

lemma example_events_ok:
  "w \<in> set [1..16] \<Longrightarrow>
   make_event \<lparr>course_name = [39640, 31561, 25968, 23398],
        teacher = [24352, 32769, 24072], class_info = [35745, 31639, 26426, 50, 51, 48, 49],
        week_info = [49, 45, 49, 54, 21608], location = [25945, 19977, 45, 51, 48, 49],
        time_info = [49, 45, 50, 33410]\<rparr> 0 [49, 45, 50, 33410] (8, 0, 9, 50) w =
     Inr (expected_example_event w)"
proof -
  assume "w \<in> set [1..16]"
  then have r: "1 \<le> ordinal semester_start + 7 * (w - 1) + 0"
    "ordinal semester_start + 7 * (w - 1) + 0 \<le> max_ordinal"
    by (simp_all add: semester_start_ordinal max_ordinal_def)
  show ?thesis
    unfolding make_event_in_range [OF r]
    by (simp add: expected_example_event_def describe_def semester_start_ordinal)
qed

lemma example_cell_processed:
  "process_cell 0 [49, 45, 50, 33410] (8, 0, 9, 50) (PyStr example_cell) st =
     st\<lparr>events := events st @ map expected_example_event [1..16]\<rparr>"
proof -
  have g: "truthy (PyStr example_cell) \<and> py_strip (py_str (PyStr example_cell)) \<noteq> []"
    using parse_some_guard [OF parse_example_cell] .
  have w: "parse_weeks (PyStr [49, 45, 49, 54, 21608]) = ([1..16], [])"
    by (simp add: parse_weeks_example upto_1_16)
  have n: "[1..16] \<noteq> ([] :: int list)" by simp
  have "\<forall>w\<in>set [1..16]. make_event \<lparr>course_name = [39640, 31561, 25968, 23398],
        teacher = [24352, 32769, 24072], class_info = [35745, 31639, 26426, 50, 51, 48, 49],
        week_info = [49, 45, 49, 54, 21608], location = [25945, 19977, 45, 51, 48, 49],
        time_info = [49, 45, 50, 33410]\<rparr> 0 [49, 45, 50, 33410] (8, 0, 9, 50) w =
     Inr (expected_example_event w)"
    using example_events_ok by blast
  from weeks_loop_all_ok [OF this] g w n show ?thesis
    by (simp add: process_cell_def parse_example_cell del: set_upto)
qed

lemma upt_1_8: "[Suc 0..<8] = [Suc 0, Suc (Suc 0), Suc (Suc (Suc 0)), Suc (Suc (Suc (Suc 0))),
       Suc (Suc (Suc (Suc (Suc 0)))), Suc (Suc (Suc (Suc (Suc (Suc 0))))),
       Suc (Suc (Suc (Suc (Suc (Suc (Suc 0))))))]"
  by (simp add: upt_rec)

lemmas grid_eval = iloc_def weekday_row_def body_row_def blank_row_def weekday_map_def
  class_time_map_def period_at_def range_prefix_def char_eval upt_1_8 Let_def

lemma example_row_processed:
  "process_row example_grid 3 st =
     Inr (st\<lparr>events := events st @ map expected_example_event [1..16]\<rparr>)"
proof -
  have "process_row example_grid 3 st =
      Inr (process_cell 0 [49, 45, 50, 33410] (8, 0, 9, 50) (PyStr example_cell) st)"
    by (simp add: process_row_def example_grid_def grid_eval process_cell_def [of _ _ _ PyNone])
  then show ?thesis by (simp add: example_cell_processed)
qed

lemma example_run: "create_ical example_grid =
    Inr \<lparr>events = map expected_example_event [1..16], printed = []\<rparr>"
proof -
  have "[3..<length example_grid] = [3]"
    by (simp add: example_grid_def upt_rec)
  then show ?thesis by (simp add: create_ical_def example_row_processed)
qed

lemma period_at_label:
  assumes "n \<noteq> []" "list_all is_d n" "m \<noteq> []" "list_all is_d m"
  shows "period_at (n @ 45 # m @ 33410 # post) = Some (n, m)"
proof -
  have nd: "33410 # post = [] \<or> \<not> is_d (hd (33410 # post))"
    by (simp add: not_digit_chars)
  have rp: "range_prefix (n @ 45 # m @ 33410 # post) = Some (33410 # post)"
    using range_prefix_range [OF assms nd] by simp
  have a: "takeWhile is_d (n @ 45 # m @ 33410 # post) = n"
    "dropWhile is_d (n @ 45 # m @ 33410 # post) = 45 # m @ 33410 # post"
    using span_digits [OF assms(2), of "45 # m @ 33410 # post"] by (simp_all add: not_digit_chars)
  have b: "takeWhile is_d (m @ 33410 # post) = m"
    using span_digits [OF assms(4), of "33410 # post"] by (simp add: not_digit_chars)
  show ?thesis by (simp add: period_at_def rp a b)
qed

lemma re_search_period_skip:
  "31532 \<notin> set pre \<Longrightarrow> re_search_period (pre @ x) = re_search_period x"
  by (induction pre) auto

lemma re_search_period_label:
  assumes "31532 \<notin> set pre" "n \<noteq> []" "list_all is_d n" "m \<noteq> []" "list_all is_d m"
  shows "re_search_period (pre @ 31532 # n @ 45 # m @ 33410 # post) = Some (n, m)"
  using re_search_period_skip [OF assms(1)] period_at_label [OF assms(2-5)] by simp

lemma cols_loop_step:
  "iloc df 2 col = Inr (PyStr wd) \<Longrightarrow> weekday_map wd = Some off \<Longrightarrow>
   iloc df row_idx col = Inr cell \<Longrightarrow>
   cols_loop df row_idx k c (col # cols) st =
     cols_loop df row_idx k c cols (process_cell off k c cell st)"
proof -
  assume a: "iloc df 2 col = Inr (PyStr wd)" "weekday_map wd = Some off"
    "iloc df row_idx col = Inr cell"
  from a(2) have "wd \<noteq> []" by (auto simp: weekday_map_def)
  with a show ?thesis by simp
qed

lemma re_search_period_mem: "re_search_period t = Some g \<Longrightarrow> 31532 \<in> set t"
  by (induction t) (auto split: if_splits)

lemma process_row_matched:
  assumes "iloc df row_idx 0 = Inr (PyStr t)" and "re_search_period t = Some (n, m)"
  shows "process_row df row_idx st =
     (if n = m then Inr st
      else (case class_time_map (n @ [45] @ m @ [33410]) of
              None \<Rightarrow> Inr (st\<lparr>printed := printed st @ [UnknownTimeSlot t]\<rparr>)
            | Some clock \<Rightarrow> cols_loop df row_idx (n @ [45] @ m @ [33410]) clock [1..<8] st))"
proof -
  from re_search_period_mem [OF assms(2)] have "31532 \<in> set t" "t \<noteq> []" by auto
  with assms show ?thesis by (simp add: process_row_def Let_def split: option.splits)
qed

lemma example_cell_any_slot:
  assumes "0 \<le> off" "off \<le> 6"
  shows "process_cell off k (sh, sm, eh, em) (PyStr example_cell) st =
     st\<lparr>events := events st @
        map (\<lambda>w. \<lparr>summary = [39640, 31561, 25968, 23398],
                   description = describe \<lparr>course_name = [39640, 31561, 25968, 23398],
                      teacher = [24352, 32769, 24072],
                      class_info = [35745, 31639, 26426, 50, 51, 48, 49],
                      week_info = [49, 45, 49, 54, 21608],
                      location = [25945, 19977, 45, 51, 48, 49],
                      time_info = [49, 45, 50, 33410]\<rparr> w k,
                   ev_location = [25945, 19977, 45, 51, 48, 49],
                   dtstart = \<lparr>ordinal = 739299 + 7 * (w - 1) + off, hour = sh, minute = sm\<rparr>,
                   dtend = \<lparr>ordinal = 739299 + 7 * (w - 1) + off, hour = eh, minute = em\<rparr>\<rparr>)
          [1..16]\<rparr>"
proof -
  let ?ci = "\<lparr>course_name = [39640, 31561, 25968, 23398],
                      teacher = [24352, 32769, 24072],
                      class_info = [35745, 31639, 26426, 50, 51, 48, 49],
                      week_info = [49, 45, 49, 54, 21608],
                      location = [25945, 19977, 45, 51, 48, 49],
                      time_info = [49, 45, 50, 33410]\<rparr>"
  let ?f = "\<lambda>w. \<lparr>summary = [39640, 31561, 25968, 23398],
                   description = describe ?ci w k,
                   ev_location = [25945, 19977, 45, 51, 48, 49],
                   dtstart = \<lparr>ordinal = 739299 + 7 * (w - 1) + off, hour = sh, minute = sm\<rparr>,
                   dtend = \<lparr>ordinal = 739299 + 7 * (w - 1) + off, hour = eh, minute = em\<rparr>\<rparr>"
  have g: "truthy (PyStr example_cell) \<and> py_strip (py_str (PyStr example_cell)) \<noteq> []"
    using parse_some_guard [OF parse_example_cell] .
  have w: "parse_weeks (PyStr [49, 45, 49, 54, 21608]) = ([1..16], [])"
    by (simp add: parse_weeks_example upto_1_16)
  have n: "[1..16] \<noteq> ([] :: int list)" by simp
  have "\<forall>w\<in>set [1..16]. make_event ?ci off k (sh, sm, eh, em) w = Inr (?f w)"
  proof
    fix w :: int assume "w \<in> set [1..16]"
    with assms have r: "1 \<le> ordinal semester_start + 7 * (w - 1) + off"
      "ordinal semester_start + 7 * (w - 1) + off \<le> max_ordinal"
      by (simp_all add: semester_start_ordinal max_ordinal_def)
    show "make_event ?ci off k (sh, sm, eh, em) w = Inr (?f w)"
      unfolding make_event_in_range [OF r] by (simp add: semester_start_ordinal)
  qed
  from weeks_loop_all_ok [OF this] g w n show ?thesis
    by (simp add: process_cell_def parse_example_cell del: set_upto)
qed

lemma wednesday_run: "create_ical example_grid_wednesday =
    Inr \<lparr>events = map expected_wednesday_event [1..16], printed = []\<rparr>"
proof -
  have r: "[3..<length example_grid_wednesday] = [3]"
    by (simp add: example_grid_wednesday_def upt_rec)
  have "\<And>st. process_row example_grid_wednesday 3 st =
      Inr (process_cell 2 [51, 45, 52, 33410] (10, 10, 12, 0) (PyStr example_cell) st)"
    by (simp add: process_row_def example_grid_wednesday_def grid_eval
        process_cell_def [of _ _ _ PyNone])
  moreover have "(\<lambda>w. \<lparr>summary = [39640, 31561, 25968, 23398],
                   description = describe \<lparr>course_name = [39640, 31561, 25968, 23398],
                      teacher = [24352, 32769, 24072],
                      class_info = [35745, 31639, 26426, 50, 51, 48, 49],
                      week_info = [49, 45, 49, 54, 21608],
                      location = [25945, 19977, 45, 51, 48, 49],
                      time_info = [49, 45, 50, 33410]\<rparr> w [51, 45, 52, 33410],
                   ev_location = [25945, 19977, 45, 51, 48, 49],
                   dtstart = \<lparr>ordinal = 739299 + 7 * (w - 1) + 2, hour = 10, minute = 10\<rparr>,
                   dtend = \<lparr>ordinal = 739299 + 7 * (w - 1) + 2, hour = 12, minute = 0\<rparr>\<rparr>) =
      expected_wednesday_event"
    by (rule ext) (simp add: expected_wednesday_event_def describe_def)
  ultimately show ?thesis
    by (simp add: create_ical_def r example_cell_any_slot)
qed

text \<open>
  Claim C1. For a cell that \<open>parse_course_info\<close> parses and the weeks that
  \<open>parse_weeks\<close> gives for its week expression, the events that the cell adds to the
  calendar are, in the order of the weeks, one event for each week \<open>w\<close> whose date is a
  date of the calendar (a week so far away that the date leaves the years 1 to 9999 raises
  in the program and gives no event): its start and its end are on the day of the start
  of the semester plus \<open>w - 1\<close> whole weeks plus the offset of the weekday, at the start
  and at the end of the clock range of the slot, and the description is composed of the
  teacher, the class, the week, the slot and the location. The offset is the one the
  table of the weekdays gives for the header of the column of the cell, and the clock
  range the one the table of the slots gives for the label of the row: the loop over the
  columns passes the cell of a column with a known weekday to \<open>process_cell\<close> with that
  offset, and a row whose label has two different numbers and a known slot runs the loop
  over the columns 1 to 7 with that slot; the two tables are as listed. The start of the
  semester is the day 739299, a Monday. The grid of the example (one body row labelled
  with the periods 1 to 2, the cell of the example under Monday) gives exactly the 16
  expected events of the weeks 1 to 16 and prints nothing: each is on a Monday, 7 days
  after the one before, from 08:00 to 09:50, and its description contains the teacher and
  the location of the example. The same cell under Wednesday, in the row of the periods
  3 to 4, gives the 16 events two days later, on Wednesdays, from 10:10 to 12:00.
\<close>

theorem events_dated_by_week:
  "(parse_course_info cell = Some ci \<longrightarrow>
    parse_weeks (PyStr (week_info ci)) = (weeks, msgs) \<longrightarrow>
    events (process_cell off k (sh, sm, eh, em) cell st) =
      events st @
      map (\<lambda>w. \<lparr>summary = course_name ci, description = describe ci w k,
                 ev_location = location ci,
                 dtstart = \<lparr>ordinal = ordinal semester_start + 7 * (w - 1) + off,
                             hour = sh, minute = sm\<rparr>,
                 dtend = \<lparr>ordinal = ordinal semester_start + 7 * (w - 1) + off,
                           hour = eh, minute = em\<rparr>\<rparr>)
        (filter (\<lambda>w. 1 \<le> ordinal semester_start + 7 * (w - 1) + off \<and>
                      ordinal semester_start + 7 * (w - 1) + off \<le> max_ordinal) weeks)) \<and>
   (iloc df 2 col = Inr (PyStr wd) \<longrightarrow> weekday_map wd = Some off \<longrightarrow>
    iloc df row_idx col = Inr cell \<longrightarrow>
      cols_loop df row_idx k (sh, sm, eh, em) (col # cols) st =
        cols_loop df row_idx k (sh, sm, eh, em) cols
          (process_cell off k (sh, sm, eh, em) cell st)) \<and>
   (iloc df row_idx 0 = Inr (PyStr t) \<longrightarrow> re_search_period t = Some (ga, gb) \<longrightarrow>
    ga \<noteq> gb \<longrightarrow> class_time_map (ga @ [45] @ gb @ [33410]) = Some (sh, sm, eh, em) \<longrightarrow>
      process_row df row_idx st =
        cols_loop df row_idx (ga @ [45] @ gb @ [33410]) (sh, sm, eh, em) [1..<8] st) \<and>
   (31532 \<notin> set pre \<longrightarrow> n \<noteq> [] \<longrightarrow> list_all is_d n \<longrightarrow> m \<noteq> [] \<longrightarrow> list_all is_d m \<longrightarrow>
      re_search_period (pre @ 31532 # n @ 45 # m @ 33410 # post) = Some (n, m)) \<and>
   weekday_map [26143, 26399, 19968] = Some 0 \<and> weekday_map [26143, 26399, 20108] = Some 1 \<and>
   weekday_map [26143, 26399, 19977] = Some 2 \<and> weekday_map [26143, 26399, 22235] = Some 3 \<and>
   weekday_map [26143, 26399, 20116] = Some 4 \<and> weekday_map [26143, 26399, 20845] = Some 5 \<and>
   weekday_map [26143, 26399, 26085] = Some 6 \<and>
   class_time_map [49, 45, 50, 33410] = Some (8, 0, 9, 50) \<and>
   class_time_map [51, 45, 52, 33410] = Some (10, 10, 12, 0) \<and>
   class_time_map [53, 45, 54, 33410] = Some (14, 0, 15, 50) \<and>
   class_time_map [55, 45, 56, 33410] = Some (16, 0, 17, 50) \<and>
   class_time_map [57, 45, 49, 48, 33410] = Some (19, 0, 20, 50) \<and>
   semester_start = \<lparr>ordinal = 739299, hour = 0, minute = 0\<rparr> \<and>
   weekday_of semester_start = 0 \<and>
   create_ical example_grid =
     Inr \<lparr>events = map expected_example_event [1..16], printed = []\<rparr> \<and>
   length (map expected_example_event [1..16]) = 16 \<and>
   weekday_of (dtstart (expected_example_event w)) = 0 \<and>
   hour (dtstart (expected_example_event w)) = 8 \<and>
   minute (dtstart (expected_example_event w)) = 0 \<and>
   hour (dtend (expected_example_event w)) = 9 \<and>
   minute (dtend (expected_example_event w)) = 50 \<and>
   ordinal (dtstart (expected_example_event (w + 1))) =
     ordinal (dtstart (expected_example_event w)) + 7 \<and>
   py_in [25945, 24072, 58, 32, 24352, 32769, 24072] (description (expected_example_event w)) \<and>
   py_in [22320, 28857, 58, 32, 25945, 19977, 45, 51, 48, 49]
     (description (expected_example_event w)) \<and>
   create_ical example_grid_wednesday =
     Inr \<lparr>events = map expected_wednesday_event [1..16], printed = []\<rparr> \<and>
   weekday_of (dtstart (expected_wednesday_event w)) = 2"
proof -
  let ?f = "\<lambda>w. \<lparr>summary = course_name ci, description = describe ci w k,
                 ev_location = location ci,
                 dtstart = \<lparr>ordinal = ordinal semester_start + 7 * (w - 1) + off,
                             hour = sh, minute = sm\<rparr>,
                 dtend = \<lparr>ordinal = ordinal semester_start + 7 * (w - 1) + off,
                           hour = eh, minute = em\<rparr>\<rparr>"
  let ?ok = "\<lambda>w. 1 \<le> ordinal semester_start + 7 * (w - 1) + off \<and>
                      ordinal semester_start + 7 * (w - 1) + off \<le> max_ordinal"
  have loop: "\<And>ws s. events (weeks_loop ci off k (sh, sm, eh, em) ws s) =
      events s @ map ?f (filter ?ok ws)"
    by (rule weeks_loop_events_filter) (simp_all add: make_event_in_range make_event_out_of_range)
  have general: "parse_course_info cell = Some ci \<longrightarrow>
    parse_weeks (PyStr (week_info ci)) = (weeks, msgs) \<longrightarrow>
    events (process_cell off k (sh, sm, eh, em) cell st) =
      events st @ map ?f (filter ?ok weeks)"
  proof (intro impI)
    assume p: "parse_course_info cell = Some ci"
      and w: "parse_weeks (PyStr (week_info ci)) = (weeks, msgs)"
    from parse_some_guard [OF p] p w loop
    show "events (process_cell off k (sh, sm, eh, em) cell st) =
      events st @ map ?f (filter ?ok weeks)"
      by (simp add: process_cell_def)
  qed
  have col: "iloc df 2 col = Inr (PyStr wd) \<longrightarrow> weekday_map wd = Some off \<longrightarrow>
    iloc df row_idx col = Inr cell \<longrightarrow>
      cols_loop df row_idx k (sh, sm, eh, em) (col # cols) st =
        cols_loop df row_idx k (sh, sm, eh, em) cols
          (process_cell off k (sh, sm, eh, em) cell st)"
    using cols_loop_step [of df col wd off row_idx cell k "(sh, sm, eh, em)" cols st] by blast
  have row: "iloc df row_idx 0 = Inr (PyStr t) \<longrightarrow> re_search_period t = Some (ga, gb) \<longrightarrow>
    ga \<noteq> gb \<longrightarrow> class_time_map (ga @ [45] @ gb @ [33410]) = Some (sh, sm, eh, em) \<longrightarrow>
      process_row df row_idx st =
        cols_loop df row_idx (ga @ [45] @ gb @ [33410]) (sh, sm, eh, em) [1..<8] st"
    by (simp add: process_row_matched)
  have lab: "31532 \<notin> set pre \<longrightarrow> n \<noteq> [] \<longrightarrow> list_all is_d n \<longrightarrow> m \<noteq> [] \<longrightarrow>
      list_all is_d m \<longrightarrow>
      re_search_period (pre @ 31532 # n @ 45 # m @ 33410 # post) = Some (n, m)"
    using re_search_period_label [of pre n m post] by blast
  have tab: "weekday_map [26143, 26399, 19968] = Some 0 \<and>
    weekday_map [26143, 26399, 20108] = Some 1 \<and>
    weekday_map [26143, 26399, 19977] = Some 2 \<and> weekday_map [26143, 26399, 22235] = Some 3 \<and>
    weekday_map [26143, 26399, 20116] = Some 4 \<and> weekday_map [26143, 26399, 20845] = Some 5 \<and>
    weekday_map [26143, 26399, 26085] = Some 6 \<and>
    class_time_map [49, 45, 50, 33410] = Some (8, 0, 9, 50) \<and>
    class_time_map [51, 45, 52, 33410] = Some (10, 10, 12, 0) \<and>
    class_time_map [53, 45, 54, 33410] = Some (14, 0, 15, 50) \<and>
    class_time_map [55, 45, 56, 33410] = Some (16, 0, 17, 50) \<and>
    class_time_map [57, 45, 49, 48, 33410] = Some (19, 0, 20, 50)"
    by (simp add: weekday_map_def class_time_map_def)
  have start: "semester_start = \<lparr>ordinal = 739299, hour = 0, minute = 0\<rparr>"
    by (simp add: semester_start_def mk_datetime_def ymd2ord_def days_before_year_def
        days_before_month_def is_leap_def)
  have monday: "weekday_of semester_start = 0"
    by (simp add: weekday_of_def start)
  have len: "length (map expected_example_event [1..16]) = 16"
    by (simp add: upto_1_16)
  have wd: "weekday_of (dtstart (expected_example_event w)) = 0"
    by (simp add: weekday_of_def expected_example_event_def)
  have tm: "hour (dtstart (expected_example_event w)) = 8"
    "minute (dtstart (expected_example_event w)) = 0"
    "hour (dtend (expected_example_event w)) = 9"
    "minute (dtend (expected_example_event w)) = 50"
    "ordinal (dtstart (expected_example_event (w + 1))) =
       ordinal (dtstart (expected_example_event w)) + 7"
    by (simp_all add: expected_example_event_def)
  have te: "py_in [25945, 24072, 58, 32, 24352, 32769, 24072]
      (description (expected_example_event w))"
    using py_in_self_append [of "[25945, 24072, 58, 32, 24352, 32769, 24072]"]
    by (simp add: expected_example_event_def)
  have l: "py_in [22320, 28857, 58, 32, 25945, 19977, 45, 51, 48, 49]
      (description (expected_example_event w))"
    using py_in_middle [of "[22320, 28857, 58, 32, 25945, 19977, 45, 51, 48, 49]"
        "[25945, 24072, 58, 32, 24352, 32769, 24072, 10,
         29677, 32423, 58, 32, 35745, 31639, 26426, 50, 51, 48, 49, 10,
         21608, 27425, 58, 32, 31532] @ str_int w @
        [21608, 10, 26102, 38388, 58, 32, 49, 45, 50, 33410, 10]" "[]"]
    by (simp add: expected_example_event_def)
  have wed: "weekday_of (dtstart (expected_wednesday_event w)) = 2"
    by (simp add: weekday_of_def expected_wednesday_event_def)
  from general col row lab tab start monday example_run len wd tm te l wednesday_run wed
  show ?thesis by blast
qed

theorem events_dated_by_week_witness:
  "parse_course_info (PyStr example_cell) =
     Some \<lparr>course_name = [39640, 31561, 25968, 23398], teacher = [24352, 32769, 24072],
        class_info = [35745, 31639, 26426, 50, 51, 48, 49],
        week_info = [49, 45, 49, 54, 21608], location = [25945, 19977, 45, 51, 48, 49],
        time_info = [49, 45, 50, 33410]\<rparr> \<and>
   parse_weeks (PyStr [49, 45, 49, 54, 21608]) =
     ([1, 2, 3, 4, 5, 6, 7, 8, 9, 10, 11, 12, 13, 14, 15, 16], []) \<and>
   events (process_cell 0 [49, 45, 50, 33410] (8, 0, 9, 50) (PyStr example_cell)
             \<lparr>events = [], printed = []\<rparr>) =
     map expected_example_event [1, 2, 3, 4, 5, 6, 7, 8, 9, 10, 11, 12, 13, 14, 15, 16] \<and>
   iloc example_grid 3 0 = Inr (PyStr ([] @ 31532 # [49] @ 45 # [50] @ 33410 # [])) \<and>
   re_search_period ([] @ 31532 # [49] @ 45 # [50] @ 33410 # []) = Some ([49], [50]) \<and>
   class_time_map ([49] @ [45] @ [50] @ [33410]) = Some (8, 0, 9, 50) \<and>
   process_row example_grid 3 \<lparr>events = [], printed = []\<rparr> =
     cols_loop example_grid 3 ([49] @ [45] @ [50] @ [33410]) (8, 0, 9, 50) [1..<8]
       \<lparr>events = [], printed = []\<rparr> \<and>
   iloc example_grid 2 1 = Inr (PyStr [26143, 26399, 19968]) \<and>
   weekday_map [26143, 26399, 19968] = Some 0 \<and>
   iloc example_grid 3 1 = Inr (PyStr example_cell) \<and>
   cols_loop example_grid 3 [49, 45, 50, 33410] (8, 0, 9, 50) (1 # [2, 3, 4, 5, 6, 7])
       \<lparr>events = [], printed = []\<rparr> =
     cols_loop example_grid 3 [49, 45, 50, 33410] (8, 0, 9, 50) [2, 3, 4, 5, 6, 7]
       (process_cell 0 [49, 45, 50, 33410] (8, 0, 9, 50) (PyStr example_cell)
          \<lparr>events = [], printed = []\<rparr>) \<and>
   create_ical example_grid =
     Inr \<lparr>events = map expected_example_event [1..16], printed = []\<rparr> \<and>
   weekday_of (dtstart (expected_example_event 16)) = 0"
proof -
  let ?ci = "\<lparr>course_name = [39640, 31561, 25968, 23398], teacher = [24352, 32769, 24072],
        class_info = [35745, 31639, 26426, 50, 51, 48, 49],
        week_info = [49, 45, 49, 54, 21608], location = [25945, 19977, 45, 51, 48, 49],
        time_info = [49, 45, 50, 33410]\<rparr>"
  have w: "parse_weeks (PyStr (week_info ?ci)) =
      ([1, 2, 3, 4, 5, 6, 7, 8, 9, 10, 11, 12, 13, 14, 15, 16], [])"
    by (simp add: parse_weeks_example)
  let ?ws = "[1, 2, 3, 4, 5, 6, 7, 8, 9, 10, 11, 12, 13, 14, 15, 16::int]"
  let ?f = "\<lambda>w. \<lparr>summary = course_name ?ci,
       description = describe ?ci w [49, 45, 50, 33410], ev_location = location ?ci,
       dtstart = \<lparr>ordinal = ordinal semester_start + 7 * (w - 1) + 0, hour = 8, minute = 0\<rparr>,
       dtend = \<lparr>ordinal = ordinal semester_start + 7 * (w - 1) + 0, hour = 9, minute = 50\<rparr>\<rparr>"
  let ?ok = "\<lambda>w. 1 \<le> ordinal semester_start + 7 * (w - 1) + 0 \<and>
       ordinal semester_start + 7 * (w - 1) + 0 \<le> max_ordinal"
  let ?st = "\<lparr>events = [], printed = []\<rparr>"
  note inst = events_dated_by_week [where cell = "PyStr example_cell" and ci = ?ci
      and weeks = ?ws and msgs = "[]" and off = 0 and k = "[49, 45, 50, 33410]"
      and sh = 8 and sm = 0 and eh = 9 and em = 50 and st = ?st and w = 16
      and df = example_grid and col = 1 and wd = "[26143, 26399, 19968]" and row_idx = 3
      and cols = "[2, 3, 4, 5, 6, 7]"
      and t = "[] @ 31532 # [49] @ 45 # [50] @ 33410 # []" and ga = "[49]" and gb = "[50]"
      and pre = "[]" and n = "[49]" and m = "[50]" and post = "[]"]
  from inst parse_example_cell w
  have ev: "events (process_cell 0 [49, 45, 50, 33410] (8, 0, 9, 50) (PyStr example_cell) ?st) =
      events ?st @ map ?f (filter ?ok ?ws)"
    by blast
  have fe: "?f = expected_example_event"
    by (rule ext) (simp add: expected_example_event_def describe_def semester_start_ordinal)
  have ok: "filter ?ok ?ws = ?ws"
    by (simp add: semester_start_ordinal max_ordinal_def)
  have ev': "events (process_cell 0 [49, 45, 50, 33410] (8, 0, 9, 50) (PyStr example_cell) ?st) =
      map expected_example_event ?ws"
    unfolding ev fe ok by simp
  from inst have rest: "create_ical example_grid =
       Inr \<lparr>events = map expected_example_event [1..16], printed = []\<rparr> \<and>
     weekday_of (dtstart (expected_example_event 16)) = 0"
    by blast
  have i: "iloc example_grid 3 0 = Inr (PyStr ([] @ 31532 # [49] @ 45 # [50] @ 33410 # []))"
    "iloc example_grid 2 1 = Inr (PyStr [26143, 26399, 19968])"
    "iloc example_grid 3 1 = Inr (PyStr example_cell)"
    by (simp_all add: example_grid_def iloc_def body_row_def weekday_row_def blank_row_def)
  have d: "list_all is_d [49]" "list_all is_d [50]" by (simp_all add: char_eval)
  from inst d have s: "re_search_period ([] @ 31532 # [49] @ 45 # [50] @ 33410 # []) =
      Some ([49], [50])" by simp
  from inst have k: "class_time_map [49, 45, 50, 33410] = Some (8, 0, 9, 50)"
    and wm: "weekday_map [26143, 26399, 19968] = Some 0" by blast+
  from k have k': "class_time_map ([49] @ [45] @ [50] @ [33410]) = Some (8, 0, 9, 50)" by simp
  have ne: "[49] \<noteq> [50::nat]" by simp
  from inst i(1) s ne k' have row: "process_row example_grid 3 ?st =
     cols_loop example_grid 3 ([49] @ [45] @ [50] @ [33410]) (8, 0, 9, 50) [1..<8] ?st"
    by blast
  from inst i(2) wm i(3) have col:
    "cols_loop example_grid 3 [49, 45, 50, 33410] (8, 0, 9, 50) (1 # [2, 3, 4, 5, 6, 7]) ?st =
     cols_loop example_grid 3 [49, 45, 50, 33410] (8, 0, 9, 50) [2, 3, 4, 5, 6, 7]
       (process_cell 0 [49, 45, 50, 33410] (8, 0, 9, 50) (PyStr example_cell) ?st)"
    by blast
  from parse_example_cell parse_weeks_example ev' i s k' row wm col rest show ?thesis by blast
qed


section \<open>The schedule expander: rows that are skipped\<close>

lemma weeks_loop_same_events:
  "events a = events b \<Longrightarrow>
   events (weeks_loop ci off k c ws a) = events (weeks_loop ci off k c ws b)"
proof (induction ws arbitrary: a b)
  case Nil
  then show ?case by simp
next
  case (Cons w ws)
  show ?case
  proof (cases "make_event ci off k c w")
    case (Inl e)
    with Cons.prems Cons.IH [of "a\<lparr>printed := printed a @ [EventFailed]\<rparr>"
        "b\<lparr>printed := printed b @ [EventFailed]\<rparr>"]
    show ?thesis by simp
  next
    case (Inr ev)
    with Cons.prems Cons.IH [of "a\<lparr>events := events a @ [ev]\<rparr>" "b\<lparr>events := events b @ [ev]\<rparr>"]
    show ?thesis by simp
  qed
qed

lemma process_cell_same_events:
  "events a = events b \<Longrightarrow>
   events (process_cell off k c cell a) = events (process_cell off k c cell b)"
  by (auto simp: process_cell_def split: option.splits prod.splits
      intro: weeks_loop_same_events)

lemma cols_loop_same_events:
  "events a = events b \<Longrightarrow>
   map_sum id events (cols_loop df i k c cols a) = map_sum id events (cols_loop df i k c cols b)"
proof (induction cols arbitrary: a b)
  case Nil
  then show ?case by simp
next
  case (Cons col cols)
  from Cons.prems have pc: "\<And>off cell.
      events (process_cell off k c cell a) = events (process_cell off k c cell b)"
    by (rule process_cell_same_events)
  show ?case
    using Cons.IH [OF Cons.prems] Cons.IH [OF pc]
    by (simp split: sum.splits option.splits pyobj.splits)
qed

lemma process_row_same_events:
  "events a = events b \<Longrightarrow>
   map_sum id events (process_row df i a) = map_sum id events (process_row df i b)"
  by (auto simp: process_row_def Let_def split: sum.splits option.splits prod.splits
      dest: cols_loop_same_events)

lemma rows_loop_same_events:
  "events a = events b \<Longrightarrow>
   map_sum id events (rows_loop df rows a) = map_sum id events (rows_loop df rows b)"
proof (induction rows arbitrary: a b)
  case Nil
  then show ?case by simp
next
  case (Cons i rows)
  from process_row_same_events [OF Cons.prems, of df i]
  consider e where "process_row df i a = Inl e" "process_row df i b = Inl e"
    | a' b' where "process_row df i a = Inr a'" "process_row df i b = Inr b'"
        "events a' = events b'"
    by (cases "process_row df i a"; cases "process_row df i b") auto
  then show ?case
  proof cases
    case 1
    then show ?thesis by simp
  next
    case 2
    with Cons.IH [OF 2(3)] show ?thesis by simp
  qed
qed

lemma key_digits:
  assumes "list_all is_d n" "list_all is_d m" "list_all is_d b"
    and "list_all is_d a" and "n @ 45 # m @ [33410] = a @ 45 # b @ [33410]"
  shows "n = a \<and> m = b"
proof -
  have nd: "\<not> is_d 45" by (simp add: char_eval)
  have "takeWhile is_d (n @ 45 # m @ [33410]) = n"
    using span_digits [OF assms(1), of "45 # m @ [33410]"] nd by simp
  moreover have "takeWhile is_d (a @ 45 # b @ [33410]) = a"
    using span_digits [OF assms(4), of "45 # b @ [33410]"] nd by simp
  ultimately have "n = a" using assms(5) by simp
  with assms(5) show ?thesis by simp
qed

lemma period_at_digits:
  "period_at r = Some (n, m) \<Longrightarrow> n \<noteq> [] \<and> list_all is_d n \<and> m \<noteq> [] \<and> list_all is_d m"
  by (auto simp: period_at_def range_prefix_def list_all_iff
      split: option.splits list.splits if_splits dest: set_takeWhileD)

lemma re_search_period_digits:
  "re_search_period t = Some (n, m) \<Longrightarrow>
   n \<noteq> [] \<and> list_all is_d n \<and> m \<noteq> [] \<and> list_all is_d m"
  by (induction t) (auto split: if_splits option.splits dest: period_at_digits)

lemma known_key:
  assumes "class_time_map (n @ [45] @ m @ [33410]) = Some c"
    and "list_all is_d n" "list_all is_d m"
  shows "(n, m) \<in> {([49], [50]), ([51], [52]), ([53], [54]), ([55], [56]), ([57], [49, 48])}"
proof -
  have d: "list_all is_d [49]" "list_all is_d [50]" "list_all is_d [51]" "list_all is_d [52]"
    "list_all is_d [53]" "list_all is_d [54]" "list_all is_d [55]" "list_all is_d [56]"
    "list_all is_d [57]" "list_all is_d [49, 48]"
    by (simp_all add: char_eval)
  from assms(1) have "n @ 45 # m @ [33410] \<in> {[49] @ 45 # [50] @ [33410],
      [51] @ 45 # [52] @ [33410], [53] @ 45 # [54] @ [33410], [55] @ 45 # [56] @ [33410],
      [57] @ 45 # [49, 48] @ [33410]}"
    by (auto simp: class_time_map_def split: if_splits)
  then consider "n @ 45 # m @ [33410] = [49] @ 45 # [50] @ [33410]"
    | "n @ 45 # m @ [33410] = [51] @ 45 # [52] @ [33410]"
    | "n @ 45 # m @ [33410] = [53] @ 45 # [54] @ [33410]"
    | "n @ 45 # m @ [33410] = [55] @ 45 # [56] @ [33410]"
    | "n @ 45 # m @ [33410] = [57] @ 45 # [49, 48] @ [33410]" by blast
  then show ?thesis
  proof cases
    case 1 from key_digits [OF assms(2,3) d(2,1) 1] show ?thesis by simp
  next
    case 2 from key_digits [OF assms(2,3) d(4,3) 2] show ?thesis by simp
  next
    case 3 from key_digits [OF assms(2,3) d(6,5) 3] show ?thesis by simp
  next
    case 4 from key_digits [OF assms(2,3) d(8,7) 4] show ?thesis by simp
  next
    case 5 from key_digits [OF assms(2,3) d(10,9) 5] show ?thesis by simp
  qed
qed

lemma known_key_numbers:
  assumes "class_time_map (n @ [45] @ m @ [33410]) = Some c"
    and "list_all is_d n" "list_all is_d m"
  shows "n \<noteq> m \<and> py_int n \<noteq> py_int m"
proof -
  have v: "py_int [49] = Inr 1" "py_int [50] = Inr 2" "py_int [51] = Inr 3" "py_int [52] = Inr 4"
    "py_int [53] = Inr 5" "py_int [54] = Inr 6" "py_int [55] = Inr 7" "py_int [56] = Inr 8"
    "py_int [57] = Inr 9" "py_int [49, 48] = Inr 10"
    by (simp_all add: eval_defs)
  from known_key [OF assms] show ?thesis by (auto simp: v)
qed


text \<open>
  Claim C8. A body row whose label in column 0 holds, as its first period label, the
  period marker, a number, a hyphen, the same number again and the closing marker, is
  skipped: the row leaves the calendar and the output as they are, whatever its cells
  hold, and the loop goes on with the next rows from the same state. The same holds for
  every label in which the leftmost match of the pattern of the period label has two
  equal groups. When the two groups are different texts of the same number, the row adds
  no event either, and the events of the run are those of the run over the other rows.
\<close>

theorem single_period_row_skipped:
  "(31532 \<notin> set pre \<longrightarrow> n \<noteq> [] \<longrightarrow> list_all is_d n \<longrightarrow>
    iloc df row_idx 0 = Inr (PyStr (pre @ 31532 # n @ 45 # n @ 33410 # post)) \<longrightarrow>
      process_row df row_idx st = Inr st \<and>
      rows_loop df (row_idx # rows) st = rows_loop df rows st) \<and>
   (iloc df row_idx 0 = Inr (PyStr t) \<longrightarrow> re_search_period t = Some (g, g) \<longrightarrow>
      process_row df row_idx st = Inr st \<and>
      rows_loop df (row_idx # rows) st = rows_loop df rows st) \<and>
   (iloc df row_idx 0 = Inr (PyStr t) \<longrightarrow> re_search_period t = Some (ga, gb) \<longrightarrow>
    py_int ga = py_int gb \<longrightarrow>
      map_sum id events (process_row df row_idx st) = Inr (events st) \<and>
      map_sum id events (rows_loop df (row_idx # rows) st) =
        map_sum id events (rows_loop df rows st))"
proof -
  have same: "\<And>u. iloc df row_idx 0 = Inr (PyStr u) \<Longrightarrow> re_search_period u = Some (g, g) \<Longrightarrow>
      process_row df row_idx st = Inr st \<and>
      rows_loop df (row_idx # rows) st = rows_loop df rows st" for g
    by (simp add: process_row_matched)
  have a: "31532 \<notin> set pre \<longrightarrow> n \<noteq> [] \<longrightarrow> list_all is_d n \<longrightarrow>
    iloc df row_idx 0 = Inr (PyStr (pre @ 31532 # n @ 45 # n @ 33410 # post)) \<longrightarrow>
      process_row df row_idx st = Inr st \<and>
      rows_loop df (row_idx # rows) st = rows_loop df rows st"
    using same [of "pre @ 31532 # n @ 45 # n @ 33410 # post" n]
      re_search_period_label [of pre n n post] by blast
  have b: "iloc df row_idx 0 = Inr (PyStr t) \<longrightarrow> re_search_period t = Some (g, g) \<longrightarrow>
      process_row df row_idx st = Inr st \<and>
      rows_loop df (row_idx # rows) st = rows_loop df rows st"
    using same [of t g] by blast
  have c: "iloc df row_idx 0 = Inr (PyStr t) \<longrightarrow> re_search_period t = Some (ga, gb) \<longrightarrow>
    py_int ga = py_int gb \<longrightarrow>
      map_sum id events (process_row df row_idx st) = Inr (events st) \<and>
      map_sum id events (rows_loop df (row_idx # rows) st) =
        map_sum id events (rows_loop df rows st)"
  proof (intro impI)
    assume i: "iloc df row_idx 0 = Inr (PyStr t)" and r: "re_search_period t = Some (ga, gb)"
      and v: "py_int ga = py_int gb"
    from re_search_period_digits [OF r] have d: "list_all is_d ga" "list_all is_d gb" by simp_all
    have k: "class_time_map (ga @ [45] @ gb @ [33410]) = None"
    proof (cases "class_time_map (ga @ [45] @ gb @ [33410])")
      case None then show ?thesis .
    next
      case (Some c)
      from known_key_numbers [OF Some d] v show ?thesis by simp
    qed
    obtain st' where p: "process_row df row_idx st = Inr st'" and e: "events st' = events st"
      using process_row_matched [OF i r, of st] k by (cases "ga = gb") auto
    from rows_loop_same_events [OF e, of df rows] p
    show "map_sum id events (process_row df row_idx st) = Inr (events st) \<and>
      map_sum id events (rows_loop df (row_idx # rows) st) =
        map_sum id events (rows_loop df rows st)"
      by (simp add: e)
  qed
  from a b c show ?thesis by blast
qed

theorem single_period_row_skipped_witness:
  "iloc example_grid_single_period 3 0 =
     Inr (PyStr ([] @ 31532 # [49] @ 45 # [49] @ 33410 # [])) \<and>
   re_search_period [31532, 49, 45, 49, 33410] = Some ([49], [49]) \<and>
   iloc example_grid_single_period 3 1 = Inr (PyStr example_cell) \<and>
   process_row example_grid_single_period 3 \<lparr>events = [], printed = []\<rparr> =
     Inr \<lparr>events = [], printed = []\<rparr> \<and>
   create_ical example_grid_single_period = Inr \<lparr>events = [], printed = []\<rparr> \<and>
   iloc example_grid_leading_zero 3 0 = Inr (PyStr [31532, 48, 49, 45, 49, 33410]) \<and>
   re_search_period [31532, 48, 49, 45, 49, 33410] = Some ([48, 49], [49]) \<and>
   py_int [48, 49] = Inr 1 \<and> py_int [49] = Inr 1 \<and>
   map_sum id events (process_row example_grid_leading_zero 3 \<lparr>events = [], printed = []\<rparr>) =
     Inr [] \<and>
   map_sum id events (create_ical example_grid_leading_zero) = Inr []"
proof -
  have i: "iloc example_grid_single_period 3 0 =
     Inr (PyStr ([] @ 31532 # [49] @ 45 # [49] @ 33410 # []))"
    "iloc example_grid_single_period 3 1 = Inr (PyStr example_cell)"
    "iloc example_grid_leading_zero 3 0 = Inr (PyStr [31532, 48, 49, 45, 49, 33410])"
    by (simp_all add: example_grid_single_period_def example_grid_leading_zero_def
        iloc_def body_row_def)
  have d: "list_all is_d [49]" by (simp add: char_eval)
  have s: "re_search_period [31532, 49, 45, 49, 33410] = Some ([49], [49])"
    "re_search_period [31532, 48, 49, 45, 49, 33410] = Some ([48, 49], [49])"
    by (simp_all add: period_at_def range_prefix_def char_eval)
  have v: "py_int [48, 49] = Inr 1" "py_int [49] = Inr 1"
    by (simp_all add: eval_defs)
  have r: "[3..<length example_grid_single_period] = [3]"
    "[3..<length example_grid_leading_zero] = [3]"
    by (simp_all add: example_grid_single_period_def example_grid_leading_zero_def upt_rec)
  note a = single_period_row_skipped [where pre = "[]" and n = "[49]" and post = "[]"
      and df = example_grid_single_period and row_idx = 3
      and st = "\<lparr>events = [], printed = []\<rparr>" and rows = "[]"
      and t = "[31532, 49, 45, 49, 33410]" and g = "[49]"]
  from a d i(1) have a1: "process_row example_grid_single_period 3 \<lparr>events = [], printed = []\<rparr> =
     Inr \<lparr>events = [], printed = []\<rparr>"
    by simp
  from a i(1) s(1) have a2: "rows_loop example_grid_single_period [3] \<lparr>events = [], printed = []\<rparr> =
      rows_loop example_grid_single_period [] \<lparr>events = [], printed = []\<rparr>"
    by simp
  note b = single_period_row_skipped [where df = example_grid_leading_zero and row_idx = 3
      and st = "\<lparr>events = [], printed = []\<rparr>" and rows = "[]"
      and t = "[31532, 48, 49, 45, 49, 33410]" and ga = "[48, 49]" and gb = "[49]"]
  from b i(3) s(2) v have b1:
    "map_sum id events (process_row example_grid_leading_zero 3 \<lparr>events = [], printed = []\<rparr>) =
       Inr []"
    "map_sum id events (rows_loop example_grid_leading_zero [3] \<lparr>events = [], printed = []\<rparr>) =
       map_sum id events (rows_loop example_grid_leading_zero [] \<lparr>events = [], printed = []\<rparr>)"
    by simp_all
  from i s v a1 a2 b1 r show ?thesis by (simp add: create_ical_def)
qed


text \<open>
  Claim C9, as amended. A body row in which the two groups of the period label, joined
  by a hyphen and closed by the marker, are not a key of the table of the clock ranges is
  skipped: the row adds no event and the events of the run are the events of the run over
  the remaining rows. When the two groups differ, the row prints the message of the
  unknown slot with the text of the label, changes nothing else, and the loop goes on
  from that state; when the two groups are equal, which never is a key of the table, the
  row prints nothing and leaves the state as it is.
\<close>

theorem unknown_slot_row_skipped:
  "(iloc df row_idx 0 = Inr (PyStr t) \<longrightarrow> re_search_period t = Some (ga, gb) \<longrightarrow>
    class_time_map (ga @ [45] @ gb @ [33410]) = None \<longrightarrow>
      (ga \<noteq> gb \<longrightarrow>
         process_row df row_idx st = Inr (st\<lparr>printed := printed st @ [UnknownTimeSlot t]\<rparr>) \<and>
         rows_loop df (row_idx # rows) st =
           rows_loop df rows (st\<lparr>printed := printed st @ [UnknownTimeSlot t]\<rparr>)) \<and>
      (ga = gb \<longrightarrow>
         process_row df row_idx st = Inr st \<and>
         rows_loop df (row_idx # rows) st = rows_loop df rows st) \<and>
      map_sum id events (process_row df row_idx st) = Inr (events st) \<and>
      map_sum id events (rows_loop df (row_idx # rows) st) =
        map_sum id events (rows_loop df rows st)) \<and>
   (re_search_period t = Some (g, g) \<longrightarrow> class_time_map (g @ [45] @ g @ [33410]) = None) \<and>
   (31532 \<notin> set pre \<longrightarrow> n \<noteq> [] \<longrightarrow> list_all is_d n \<longrightarrow> m \<noteq> [] \<longrightarrow> list_all is_d m \<longrightarrow>
      re_search_period (pre @ 31532 # n @ 45 # m @ 33410 # post) = Some (n, m))"
proof -
  have a: "iloc df row_idx 0 = Inr (PyStr t) \<longrightarrow> re_search_period t = Some (ga, gb) \<longrightarrow>
    class_time_map (ga @ [45] @ gb @ [33410]) = None \<longrightarrow>
      (ga \<noteq> gb \<longrightarrow>
         process_row df row_idx st = Inr (st\<lparr>printed := printed st @ [UnknownTimeSlot t]\<rparr>) \<and>
         rows_loop df (row_idx # rows) st =
           rows_loop df rows (st\<lparr>printed := printed st @ [UnknownTimeSlot t]\<rparr>)) \<and>
      (ga = gb \<longrightarrow>
         process_row df row_idx st = Inr st \<and>
         rows_loop df (row_idx # rows) st = rows_loop df rows st) \<and>
      map_sum id events (process_row df row_idx st) = Inr (events st) \<and>
      map_sum id events (rows_loop df (row_idx # rows) st) =
        map_sum id events (rows_loop df rows st)"
  proof (intro impI)
    assume i: "iloc df row_idx 0 = Inr (PyStr t)" and r: "re_search_period t = Some (ga, gb)"
      and k: "class_time_map (ga @ [45] @ gb @ [33410]) = None"
    let ?st = "st\<lparr>printed := printed st @ [UnknownTimeSlot t]\<rparr>"
    note p = process_row_matched [OF i r, of st]
    have x: "ga \<noteq> gb \<longrightarrow> process_row df row_idx st = Inr ?st \<and>
        rows_loop df (row_idx # rows) st = rows_loop df rows ?st"
      using p k by simp
    have y: "ga = gb \<longrightarrow> process_row df row_idx st = Inr st \<and>
        rows_loop df (row_idx # rows) st = rows_loop df rows st"
      using p by simp
    have e: "events ?st = events st" by simp
    have z: "map_sum id events (process_row df row_idx st) = Inr (events st)"
      using p k by (cases "ga = gb") simp_all
    have w: "map_sum id events (rows_loop df (row_idx # rows) st) =
        map_sum id events (rows_loop df rows st)"
      using x y rows_loop_same_events [OF e, of df rows] by (cases "ga = gb") simp_all
    from x y z w show "(ga \<noteq> gb \<longrightarrow>
         process_row df row_idx st = Inr ?st \<and>
         rows_loop df (row_idx # rows) st = rows_loop df rows ?st) \<and>
      (ga = gb \<longrightarrow>
         process_row df row_idx st = Inr st \<and>
         rows_loop df (row_idx # rows) st = rows_loop df rows st) \<and>
      map_sum id events (process_row df row_idx st) = Inr (events st) \<and>
      map_sum id events (rows_loop df (row_idx # rows) st) =
        map_sum id events (rows_loop df rows st)" by blast
  qed
  have b: "re_search_period t = Some (g, g) \<longrightarrow> class_time_map (g @ [45] @ g @ [33410]) = None"
  proof
    assume r: "re_search_period t = Some (g, g)"
    from re_search_period_digits [OF r] have d: "list_all is_d g" by simp
    show "class_time_map (g @ [45] @ g @ [33410]) = None"
    proof (cases "class_time_map (g @ [45] @ g @ [33410])")
      case None then show ?thesis .
    next
      case (Some c)
      from known_key_numbers [OF Some d d] show ?thesis by simp
    qed
  qed
  have c: "31532 \<notin> set pre \<longrightarrow> n \<noteq> [] \<longrightarrow> list_all is_d n \<longrightarrow> m \<noteq> [] \<longrightarrow> list_all is_d m \<longrightarrow>
      re_search_period (pre @ 31532 # n @ 45 # m @ 33410 # post) = Some (n, m)"
    using re_search_period_label [of pre n m post] by blast
  from a b c show ?thesis by blast
qed

lemma unknown_slot_second_row:
  "process_row example_grid_unknown_slot 4 st =
     Inr (st\<lparr>events := events st @ map expected_example_event [1..16]\<rparr>)"
proof -
  have "process_row example_grid_unknown_slot 4 st =
      Inr (process_cell 0 [49, 45, 50, 33410] (8, 0, 9, 50) (PyStr example_cell) st)"
    by (simp add: process_row_def example_grid_unknown_slot_def grid_eval
        process_cell_def [of _ _ _ PyNone])
  then show ?thesis by (simp add: example_cell_processed)
qed

theorem unknown_slot_row_skipped_witness:
  "iloc example_grid_unknown_slot 3 0 =
     Inr (PyStr ([] @ 31532 # [49, 49] @ 45 # [49, 50] @ 33410 # [])) \<and>
   re_search_period ([] @ 31532 # [49, 49] @ 45 # [49, 50] @ 33410 # []) =
     Some ([49, 49], [49, 50]) \<and>
   class_time_map ([49, 49] @ [45] @ [49, 50] @ [33410]) = None \<and>
   process_row example_grid_unknown_slot 3 \<lparr>events = [], printed = []\<rparr> =
     Inr \<lparr>events = [],
          printed = [UnknownTimeSlot [31532, 49, 49, 45, 49, 50, 33410]]\<rparr> \<and>
   create_ical example_grid_unknown_slot =
     Inr \<lparr>events = map expected_example_event [1..16],
          printed = [UnknownTimeSlot [31532, 49, 49, 45, 49, 50, 33410]]\<rparr> \<and>
   iloc example_grid_period_3_3 3 0 = Inr (PyStr [31532, 51, 45, 51, 33410]) \<and>
   re_search_period [31532, 51, 45, 51, 33410] = Some ([51], [51]) \<and>
   class_time_map ([51] @ [45] @ [51] @ [33410]) = None \<and>
   process_row example_grid_period_3_3 3 \<lparr>events = [], printed = []\<rparr> =
     Inr \<lparr>events = [], printed = []\<rparr>"
proof -
  have i: "iloc example_grid_unknown_slot 3 0 =
     Inr (PyStr ([] @ 31532 # [49, 49] @ 45 # [49, 50] @ 33410 # []))"
    "iloc example_grid_period_3_3 3 0 = Inr (PyStr [31532, 51, 45, 51, 33410])"
    by (simp_all add: example_grid_unknown_slot_def example_grid_period_3_3_def
        iloc_def body_row_def)
  have d: "list_all is_d [49, 49]" "list_all is_d [49, 50]" by (simp_all add: char_eval)
  have k: "class_time_map ([49, 49] @ [45] @ [49, 50] @ [33410]) = None"
    by (simp add: class_time_map_def)
  have r: "[3..<length example_grid_unknown_slot] = [3, 4]"
    by (simp add: example_grid_unknown_slot_def upt_rec)
  have s3: "re_search_period [31532, 51, 45, 51, 33410] = Some ([51], [51])"
    by (simp add: period_at_def range_prefix_def char_eval)
  note a = unknown_slot_row_skipped [where pre = "[]" and n = "[49, 49]" and m = "[49, 50]"
      and post = "[]" and df = example_grid_unknown_slot and row_idx = 3
      and st = "\<lparr>events = [], printed = []\<rparr>" and rows = "[4]"
      and t = "[] @ 31532 # [49, 49] @ 45 # [49, 50] @ 33410 # []"
      and ga = "[49, 49]" and gb = "[49, 50]"]
  from a d have s: "re_search_period ([] @ 31532 # [49, 49] @ 45 # [49, 50] @ 33410 # []) =
     Some ([49, 49], [49, 50])" by simp
  from a i(1) s k have p: "process_row example_grid_unknown_slot 3 \<lparr>events = [], printed = []\<rparr> =
     Inr \<lparr>events = [],
          printed = [UnknownTimeSlot [31532, 49, 49, 45, 49, 50, 33410]]\<rparr>"
    and q: "rows_loop example_grid_unknown_slot [3, 4] \<lparr>events = [], printed = []\<rparr> =
      rows_loop example_grid_unknown_slot [4] \<lparr>events = [],
          printed = [UnknownTimeSlot [31532, 49, 49, 45, 49, 50, 33410]]\<rparr>"
    by simp_all
  note b = unknown_slot_row_skipped [where df = example_grid_period_3_3 and row_idx = 3
      and st = "\<lparr>events = [], printed = []\<rparr>" and rows = "[]"
      and t = "[31532, 51, 45, 51, 33410]" and ga = "[51]" and gb = "[51]" and g = "[51]"]
  from b s3 have k3: "class_time_map ([51] @ [45] @ [51] @ [33410]) = None" by blast
  from b i(2) s3 k3 have p3: "process_row example_grid_period_3_3 3 \<lparr>events = [], printed = []\<rparr> =
     Inr \<lparr>events = [], printed = []\<rparr>" by blast
  have c: "create_ical example_grid_unknown_slot =
     Inr \<lparr>events = map expected_example_event [1..16],
          printed = [UnknownTimeSlot [31532, 49, 49, 45, 49, 50, 33410]]\<rparr>"
    unfolding create_ical_def r q by (simp add: unknown_slot_second_row)
  from i s k p c s3 k3 p3 show ?thesis by blast
qed

text \<open>
  Claim C9, as stated, fails: the label of the periods 3 to 3 is not a key of the table
  of the clock ranges and its row is skipped, but nothing is printed.
\<close>

theorem same_period_no_diagnostic_counterexample:
  "iloc example_grid_period_3_3 3 0 = Inr (PyStr [31532, 51, 45, 51, 33410]) \<and>
   re_search_period [31532, 51, 45, 51, 33410] = Some ([51], [51]) \<and>
   class_time_map ([51] @ [45] @ [51] @ [33410]) = None \<and>
   process_row example_grid_period_3_3 3 \<lparr>events = [], printed = []\<rparr> =
     Inr \<lparr>events = [], printed = []\<rparr> \<and>
   create_ical example_grid_period_3_3 = Inr \<lparr>events = [], printed = []\<rparr>"
proof -
  have i: "iloc example_grid_period_3_3 3 0 = Inr (PyStr [31532, 51, 45, 51, 33410])"
    by (simp add: example_grid_period_3_3_def iloc_def body_row_def)
  have s: "re_search_period [31532, 51, 45, 51, 33410] = Some ([51], [51])"
    by (simp add: period_at_def range_prefix_def char_eval)
  have k: "class_time_map ([51] @ [45] @ [51] @ [33410]) = None"
    by (simp add: class_time_map_def)
  have p: "process_row example_grid_period_3_3 3 \<lparr>events = [], printed = []\<rparr> =
     Inr \<lparr>events = [], printed = []\<rparr>"
    by (simp add: process_row_matched [OF i s])
  have r: "[3..<length example_grid_period_3_3] = [3]"
    by (simp add: example_grid_period_3_3_def upt_rec)
  from i s k p show ?thesis by (simp add: create_ical_def r)
qed


section \<open>The week expression parser: facts\<close>

lemma strip_with_id: "\<forall>c\<in>set s. \<not> sp c \<Longrightarrow> strip_with sp s = s"
proof -
  assume a: "\<forall>c\<in>set s. \<not> sp c"
  then have "dropWhile sp s = s" by (cases s) auto
  moreover from a have "dropWhile sp (rev s) = rev s" by (cases "rev s") auto
  ultimately show ?thesis by (simp add: strip_with_def)
qed

lemma py_in_subset: "py_in sub s \<Longrightarrow> set sub \<subseteq> set s"
proof (induction s)
  case Nil
  then show ?case by simp
next
  case (Cons c cs)
  then show ?case using set_mono_prefix [of sub "c # cs"] by auto
qed

lemma py_replace_absent: "\<not> set old \<subseteq> set s \<Longrightarrow> py_replace old new s = s"
proof (induction old new s rule: py_replace.induct)
  case (1 old new)
  show ?case by simp
next
  case (2 old new c cs)
  from "2.prems" have np: "\<not> prefix old (c # cs)"
    using set_mono_prefix by blast
  from "2.prems" have "\<not> set old \<subseteq> set cs" by auto
  with "2.IH"(2) np show ?case by simp
qed

lemma without_markers_absent: "21608 \<notin> set s \<Longrightarrow> without_markers s = s"
  by (simp add: without_markers_def week_marker_def even_week_marker_def odd_week_marker_def
      py_replace_absent)

lemma markers_absent:
  "21608 \<notin> set s \<Longrightarrow> \<not> py_in odd_week_marker s \<and> \<not> py_in even_week_marker s"
  using py_in_subset [of odd_week_marker s] py_in_subset [of even_week_marker s]
  by (auto simp: odd_week_marker_def even_week_marker_def)

lemma py_split_none: "sep \<notin> set a \<Longrightarrow> py_split sep a = [a]"
  by (induction a) auto

lemma py_split_first: "sep \<notin> set a \<Longrightarrow> py_split sep (a @ sep # r) = a # py_split sep r"
  by (induction a) (auto simp: py_split_not_Nil split: list.splits)

lemma str_nat_digits: "str_nat n \<noteq> [] \<and> (\<forall>c\<in>set (str_nat n). 48 \<le> c \<and> c < 58)"
proof (induction n rule: str_nat.induct)
  case (1 n)
  show ?case
  proof (cases "n < 10")
    case True
    then show ?thesis by (simp add: str_nat.simps [of n])
  next
    case False
    with 1 have "str_nat (n div 10) \<noteq> [] \<and> (\<forall>c\<in>set (str_nat (n div 10)). 48 \<le> c \<and> c < 58)"
      by simp
    moreover have "n mod 10 < 10" by simp
    ultimately show ?thesis using False by (auto simp: str_nat.simps [of n])
  qed
qed

lemma py_decimal_48: "k < 10 \<Longrightarrow> py_decimal (48 + k) = Some k"
  by (simp add: py_decimal_def)

lemma int_body_digits:
  "\<forall>c\<in>set ds. is_d c \<Longrightarrow>
   int_body acc ds = Some (foldl (\<lambda>a c. 10 * a + the (py_decimal c)) acc ds)"
  by (induction acc ds rule: int_body.induct) (auto simp: is_d_def)

lemma foldl_str_nat: "foldl (\<lambda>a c. 10 * a + the (py_decimal c)) 0 (str_nat n) = n"
proof (induction n rule: str_nat.induct)
  case (1 n)
  show ?case
  proof (cases "n < 10")
    case True
    then show ?thesis by (simp add: str_nat.simps [of n] py_decimal_48)
  next
    case False
    with 1 have "foldl (\<lambda>a c. 10 * a + the (py_decimal c)) 0 (str_nat (n div 10)) = n div 10"
      by simp
    with False show ?thesis by (simp add: str_nat.simps [of n] py_decimal_48)
  qed
qed

lemma str_nat_is_d: "\<forall>c\<in>set (str_nat n). is_d c"
  using str_nat_digits [of n] by (auto simp: is_d_def py_decimal_ascii)

lemma int_unsigned_str_nat: "int_unsigned (str_nat n) = Some n"
proof -
  obtain c cs where s: "str_nat n = c # cs"
    using str_nat_digits [of n] by (cases "str_nat n") auto
  with str_nat_is_d [of n] have d: "is_d c" "\<forall>x\<in>set cs. is_d x"
    by auto
  from d(1) obtain v where v: "py_decimal c = Some v" by (auto simp: is_d_def)
  have "foldl (\<lambda>a c. 10 * a + the (py_decimal c)) v cs = n"
    using foldl_str_nat [of n] s v by simp
  with d(2) v show ?thesis
    by (simp add: int_unsigned_def s int_body_digits)
qed

lemma py_int_str_nat: "py_int (str_nat n) = Inr (int n)"
proof -
  have ns: "\<forall>c\<in>set (str_nat n). \<not> int_space c"
    using str_nat_digits [of n] by (auto simp: int_space_def py_isspace_def)
  have st: "strip_with int_space (str_nat n) = str_nat n"
    by (rule strip_with_id [OF ns])
  obtain c cs where s: "str_nat n = c # cs"
    using str_nat_digits [of n] by (cases "str_nat n") auto
  with str_nat_digits [of n] have "c \<noteq> 43" "c \<noteq> 45" by auto
  then show ?thesis
    unfolding py_int_def Let_def st
    using int_unsigned_str_nat [of n] s by simp
qed

lemma range_text_chars:
  "\<forall>c\<in>set (range_text a b). (48 \<le> c \<and> c < 58) \<or> c = 45"
  using str_nat_digits [of a] str_nat_digits [of b] by (auto simp: range_text_def)

lemma plain_not_space: "(48 \<le> c \<and> c < 58) \<or> c = 45 \<or> c = 44 \<Longrightarrow> \<not> py_isspace c"
  by (auto simp: py_isspace_def)

lemma keep_all: "filter (keep_week False False) ws = ws"
  by (simp add: keep_week_def)

lemma parse_part_range:
  "parse_part io ie (range_text a b) = Inr (filter (keep_week io ie) [int a..int b])"
proof -
  have sp: "\<forall>c\<in>set (range_text a b). \<not> py_isspace c"
    using range_text_chars [of a b] plain_not_space by blast
  have st: "py_strip (range_text a b) = range_text a b"
    unfolding py_strip_def by (rule strip_with_id [OF sp])
  have na: "45 \<notin> set (str_nat a)" "45 \<notin> set (str_nat b)"
    using str_nat_digits [of a] str_nat_digits [of b] by auto
  have sl: "py_split 45 (range_text a b) = [str_nat a, str_nat b]"
    using py_split_first [OF na(1), of "str_nat b"] py_split_none [OF na(2)]
    by (simp add: range_text_def)
  have m: "45 \<in> set (range_text a b)" by (simp add: range_text_def)
  show ?thesis
    using m by (simp add: parse_part_def st sl py_int_str_nat)
qed

lemma parse_parts_ranges:
  "parse_parts io ie (map (\<lambda>(a, b). range_text a b) ps) acc =
     Inr (acc @ concat (map (\<lambda>(a, b). filter (keep_week io ie) [int a..int b]) ps))"
  by (induction ps arbitrary: acc) (auto simp: parse_part_range)

lemma join_commas_chars:
  "\<forall>x\<in>set xs. \<forall>c\<in>set x. P c \<Longrightarrow> P 44 \<Longrightarrow> \<forall>c\<in>set (join_commas xs). P c"
  by (induction xs rule: join_commas.induct) auto

lemma py_split_join:
  "xs \<noteq> [] \<Longrightarrow> \<forall>x\<in>set xs. 44 \<notin> set x \<Longrightarrow> py_split 44 (join_commas xs) = xs"
proof (induction xs rule: join_commas.induct)
  case 1
  then show ?case by simp
next
  case (2 x)
  then show ?case by (simp add: py_split_none)
next
  case (3 x y r)
  then have "py_split 44 (join_commas (y # r)) = y # r" by simp
  with 3 show ?case using py_split_first [of 44 x "join_commas (y # r)"] by simp
qed

lemma parse_part_filter:
  "parse_part io ie p = map_sum id (filter (keep_week io ie)) (parse_part False False p)"
  by (simp add: parse_part_def Let_def keep_all split: list.splits sum.splits)
     (simp add: keep_week_def)

lemma parse_parts_filter:
  "parse_parts io ie ps acc =
     (case parse_parts False False ps [] of
        Inl e \<Rightarrow> Inl e
      | Inr ws \<Rightarrow> Inr (acc @ filter (keep_week io ie) ws))"
proof (induction ps arbitrary: io ie acc)
  case Nil
  show ?case by simp
next
  case (Cons p ps)
  show ?case
  proof (cases "parse_part False False p")
    case (Inl e)
    then show ?thesis by (simp add: parse_part_filter [of io ie p])
  next
    case (Inr ws0)
    have a: "parse_parts io ie ps (acc @ filter (keep_week io ie) ws0) =
        (case parse_parts False False ps [] of
           Inl e \<Rightarrow> Inl e
         | Inr ws \<Rightarrow> Inr ((acc @ filter (keep_week io ie) ws0) @ filter (keep_week io ie) ws))"
      by (rule Cons.IH)
    have b: "parse_parts False False ps ws0 =
        (case parse_parts False False ps [] of
           Inl e \<Rightarrow> Inl e
         | Inr ws \<Rightarrow> Inr (ws0 @ filter (keep_week False False) ws))"
      by (rule Cons.IH)
    show ?thesis
      using Inr a b
      by (simp add: parse_part_filter [of io ie p] keep_all split: sum.splits)
  qed
qed

lemma parse_weeks_filter:
  "fst (parse_weeks (PyStr s)) =
     filter (keep_week (py_in odd_week_marker (py_strip s)) (py_in even_week_marker (py_strip s)))
       (listed_weeks s)"
proof (cases "s = []")
  case True
  then show ?thesis
    by (simp add: parse_weeks_def listed_weeks_def py_strip_def strip_with_def
        without_markers_def parse_part_def py_isdigit_def)
next
  case False
  let ?io = "py_in odd_week_marker (py_strip s)"
  let ?ie = "py_in even_week_marker (py_strip s)"
  let ?ps = "py_split 44 (without_markers (py_strip s))"
  show ?thesis
  proof (cases "parse_parts False False ?ps []")
    case (Inl e)
    with False show ?thesis
      by (simp add: parse_weeks_def listed_weeks_def Let_def parse_parts_filter [of ?io ?ie ?ps])
  next
    case (Inr ws)
    with False show ?thesis
      by (simp add: parse_weeks_def listed_weeks_def Let_def parse_parts_filter [of ?io ?ie ?ps]
          remdups_filter filter_sort)
  qed
qed

lemma parse_parts_Inl:
  "p \<in> set ps \<Longrightarrow> parse_part io ie p = Inl e \<Longrightarrow> \<exists>e'. parse_parts io' ie' ps acc = Inl e'"
proof (induction ps arbitrary: acc)
  case Nil
  then show ?case by simp
next
  case (Cons q ps)
  show ?case
  proof (cases "parse_part io' ie' q")
    case (Inl x)
    then show ?thesis by simp
  next
    case (Inr ws)
    have "q \<noteq> p"
    proof
      assume "q = p"
      with Inr Cons.prems(2) show False
        using parse_part_filter [of io ie p] parse_part_filter [of io' ie' p]
        by (cases "parse_part False False p") auto
    qed
    with Cons.prems have "p \<in> set ps" by simp
    from Cons.IH [OF this Cons.prems(2)] Inr show ?thesis by simp
  qed
qed

lemma parse_parts_ok:
  "\<forall>p\<in>set ps. \<forall>e. parse_part io ie p \<noteq> Inl e \<Longrightarrow> \<exists>ws. parse_parts io ie ps acc = Inr ws"
  by (induction ps arbitrary: acc) (auto split: sum.splits)

lemma parse_weeks_sorted: "sorted (fst (parse_weeks x)) \<and> distinct (fst (parse_weeks x))"
  by (cases x) (auto simp: parse_weeks_def Let_def split: sum.splits)

lemma keep_week_funs:
  "keep_week True False = (\<lambda>w. w mod 2 = 1)"
  "keep_week False True = (\<lambda>w. w mod 2 = 0)"
  "keep_week True True = (\<lambda>w. True)" "keep_week False False = (\<lambda>w. True)"
  by (auto simp: keep_week_def fun_eq_iff)

lemma parse_weeks_odd_example:
  "parse_weeks (PyStr [49, 45, 49, 53, 21333, 21608]) = ([1, 3, 5, 7, 9, 11, 13, 15], [])"
  by (simp add: eval_defs upto.simps)

lemma parse_weeks_even_example:
  "parse_weeks (PyStr [50, 45, 49, 54, 21452, 21608]) = ([2, 4, 6, 8, 10, 12, 14, 16], [])"
  by (simp add: eval_defs upto.simps)

lemma parse_weeks_both_example:
  "parse_weeks (PyStr example_both_markers) = ([1, 2, 3, 4], [])"
  by (simp add: example_both_markers_def eval_defs upto.simps)

lemma both_markers_present:
  "py_in odd_week_marker (py_strip example_both_markers)"
  "py_in even_week_marker (py_strip example_both_markers)"
  by (simp_all add: example_both_markers_def eval_defs)

text \<open>
  Claim C4. \<open>parse_weeks\<close> returns for every argument: the empty list, with no
  message, for \<open>None\<close>, for the empty string and for a value that is no string; for every
  argument a list that is ascending and without duplicates; and a message only together
  with the empty list. When any part of the text raises (a part that is no number, a
  range that does not have two numbers), the exception is caught: the whole call returns
  the empty list, also when other parts are valid, and prints the message with the text
  (as it is after stripping and after the markers are taken out). When no part raises,
  nothing is printed.
\<close>

theorem parse_weeks_never_raises:
  "parse_weeks PyNone = ([], []) \<and> parse_weeks (PyStr []) = ([], []) \<and>
   parse_weeks (PyOther t u) = ([], []) \<and>
   sorted (fst (parse_weeks x)) \<and> distinct (fst (parse_weeks x)) \<and>
   (fst (parse_weeks x) = [] \<or> snd (parse_weeks x) = []) \<and>
   (s \<noteq> [] \<longrightarrow> p \<in> set (py_split 44 (without_markers (py_strip s))) \<longrightarrow>
    parse_part io ie p = Inl e \<longrightarrow>
      parse_weeks (PyStr s) = ([], [WeekParseError (without_markers (py_strip s))])) \<and>
   ((\<forall>q\<in>set (py_split 44 (without_markers (py_strip s))). \<forall>e'. parse_part io ie q \<noteq> Inl e') \<longrightarrow>
      snd (parse_weeks (PyStr s)) = [])"
proof -
  have n: "parse_weeks PyNone = ([], [])" "parse_weeks (PyStr []) = ([], [])"
    "parse_weeks (PyOther t u) = ([], [])"
    by (simp_all add: parse_weeks_def)
  have e: "fst (parse_weeks x) = [] \<or> snd (parse_weeks x) = []"
    by (cases x) (auto simp: parse_weeks_def Let_def split: sum.splits)
  let ?io = "py_in odd_week_marker (py_strip s)"
  let ?ie = "py_in even_week_marker (py_strip s)"
  let ?ps = "py_split 44 (without_markers (py_strip s))"
  have f: "s \<noteq> [] \<longrightarrow> p \<in> set ?ps \<longrightarrow> parse_part io ie p = Inl e \<longrightarrow>
      parse_weeks (PyStr s) = ([], [WeekParseError (without_markers (py_strip s))])"
  proof (intro impI)
    assume s: "s \<noteq> []" and p: "p \<in> set ?ps" and x: "parse_part io ie p = Inl e"
    from parse_parts_Inl [OF p x, of ?io ?ie "[]"]
    obtain e' where "parse_parts ?io ?ie ?ps [] = Inl e'" by blast
    with s show "parse_weeks (PyStr s) = ([], [WeekParseError (without_markers (py_strip s))])"
      by (simp add: parse_weeks_def Let_def)
  qed
  have g: "(\<forall>q\<in>set ?ps. \<forall>e'. parse_part io ie q \<noteq> Inl e') \<longrightarrow>
      snd (parse_weeks (PyStr s)) = []"
  proof
    assume a: "\<forall>q\<in>set ?ps. \<forall>e'. parse_part io ie q \<noteq> Inl e'"
    have "\<forall>q\<in>set ?ps. \<forall>e'. parse_part ?io ?ie q \<noteq> Inl e'"
    proof (intro ballI allI notI)
      fix q e' assume q: "q \<in> set ?ps" and b: "parse_part ?io ?ie q = Inl e'"
      from b have "parse_part io ie q = Inl e'"
        using parse_part_filter [of io ie q] parse_part_filter [of ?io ?ie q]
        by (cases "parse_part False False q") auto
      with a q show False by blast
    qed
    from parse_parts_ok [OF this, of "[]"] obtain ws where
      "parse_parts ?io ?ie ?ps [] = Inr ws" by blast
    then show "snd (parse_weeks (PyStr s)) = []"
      by (simp add: parse_weeks_def Let_def)
  qed
  from n parse_weeks_sorted [of x] e f g show ?thesis by blast
qed

theorem parse_weeks_never_raises_witness:
  "example_bad_part \<noteq> [] \<and>
   [120, 45, 53] \<in> set (py_split 44 (without_markers (py_strip example_bad_part))) \<and>
   parse_part False False [120, 45, 53] = Inl ValueError \<and>
   parse_part False False [49, 45, 51] = Inr [1, 2, 3] \<and>
   parse_weeks (PyStr example_bad_part) = ([], [WeekParseError example_bad_part]) \<and>
   parse_part False False example_bad_range = Inl ValueError \<and>
   parse_weeks (PyStr example_bad_range) = ([], [WeekParseError example_bad_range]) \<and>
   py_split 44 (without_markers (py_strip [49, 53, 21608])) = [[49, 53]] \<and>
   parse_part False False [49, 53] = Inr [15] \<and>
   parse_weeks (PyStr [49, 53, 21608]) = ([15], [])"
proof -
  have t: "without_markers (py_strip example_bad_part) = example_bad_part"
    "without_markers (py_strip example_bad_range) = example_bad_range"
    by (simp_all add: example_bad_part_def example_bad_range_def eval_defs)
  have sp: "py_split 44 example_bad_part = [[49, 45, 51], [120, 45, 53]]"
    "py_split 44 example_bad_range = [example_bad_range]"
    by (simp_all add: example_bad_part_def example_bad_range_def)
  have pp: "parse_part False False [120, 45, 53] = Inl ValueError"
    "parse_part False False [49, 45, 51] = Inr [1, 2, 3]"
    "parse_part False False example_bad_range = Inl ValueError"
    by (simp_all add: example_bad_range_def eval_defs upto.simps)
  have ne: "example_bad_part \<noteq> []" "example_bad_range \<noteq> []"
    by (simp_all add: example_bad_part_def example_bad_range_def)
  have ok: "\<forall>q\<in>set (py_split 44 (without_markers (py_strip [49, 53, 21608]))).
      \<forall>e'. parse_part False False q \<noteq> Inl e'"
    by (simp add: eval_defs)
  have v: "parse_weeks (PyStr [49, 53, 21608]) = ([15], [])"
    by (simp add: eval_defs)
  from parse_weeks_never_raises [of _ _ _ example_bad_part "[120, 45, 53]" False False ValueError] ne(1) pp(1)
  have a: "parse_weeks (PyStr example_bad_part) = ([], [WeekParseError example_bad_part])"
    by (simp add: t sp)
  from parse_weeks_never_raises [of _ _ _ example_bad_range example_bad_range False False ValueError] ne(2) pp(3)
  have b: "parse_weeks (PyStr example_bad_range) = ([], [WeekParseError example_bad_range])"
    by (simp add: t sp)
  from parse_weeks_never_raises [of _ _ _ "[49, 53, 21608]" _ False False] ok
  have c: "snd (parse_weeks (PyStr [49, 53, 21608])) = []" by blast
  have sp15: "py_split 44 (without_markers (py_strip [49, 53, 21608])) = [[49, 53]]"
    "parse_part False False [49, 53] = Inr [15]"
    by (simp_all add: eval_defs)
  from ne(1) pp a b v c sp15 show ?thesis by (simp add: t sp)
qed

lemma py_in_iff: "py_in sub s \<longleftrightarrow> (\<exists>a b. s = a @ sub @ b)"
proof (induction s)
  case Nil
  show ?case by auto
next
  case (Cons c cs)
  show ?case
  proof
    assume "py_in sub (c # cs)"
    then consider "prefix sub (c # cs)" | "py_in sub cs" by auto
    then show "\<exists>a b. c # cs = a @ sub @ b"
    proof cases
      case 1
      then obtain b where "c # cs = sub @ b" by (auto simp: prefix_def)
      then have "c # cs = [] @ sub @ b" by simp
      then show ?thesis by blast
    next
      case 2
      with Cons.IH obtain a b where "cs = a @ sub @ b" by blast
      then have "c # cs = (c # a) @ sub @ b" by simp
      then show ?thesis by blast
    qed
  next
    assume "\<exists>a b. c # cs = a @ sub @ b"
    then obtain a b where e: "c # cs = a @ sub @ b" by blast
    show "py_in sub (c # cs)"
    proof (cases a)
      case Nil
      with e have "prefix sub (c # cs)" by (simp add: prefix_def)
      then show ?thesis by simp
    next
      case (Cons x a')
      with e have "cs = a' @ sub @ b" by simp
      with Cons.IH show ?thesis by auto
    qed
  qed
qed

lemma dropWhile_keeps_middle:
  "m \<noteq> [] \<Longrightarrow> \<not> P (hd m) \<Longrightarrow> dropWhile P (a @ m @ b) = dropWhile P a @ m @ b"
  by (cases m) (auto simp: dropWhile_append)

lemma strip_with_keeps_middle:
  assumes "m \<noteq> []" "\<not> sp (hd m)" "\<not> sp (last m)"
  shows "\<exists>a' b'. strip_with sp (a @ m @ b) = a' @ m @ b'"
proof -
  have r: "rev m \<noteq> []" "\<not> sp (hd (rev m))" using assms by (simp_all add: hd_rev)
  have 1: "dropWhile sp (a @ m @ b) = dropWhile sp a @ m @ b"
    using assms(1,2) by (rule dropWhile_keeps_middle)
  have 2: "dropWhile sp (rev b @ rev m @ rev (dropWhile sp a)) =
      dropWhile sp (rev b) @ rev m @ rev (dropWhile sp a)"
    using r by (rule dropWhile_keeps_middle)
  have "strip_with sp (a @ m @ b) = dropWhile sp a @ m @ rev (dropWhile sp (rev b))"
    unfolding strip_with_def 1 by (simp add: 2)
  then show ?thesis by blast
qed

lemma strip_with_inside: "\<exists>u v. s = u @ strip_with sp s @ v"
proof -
  obtain w where w: "dropWhile sp s = strip_with sp s @ w"
    using strip_with_prefix by blast
  have "s = takeWhile sp s @ dropWhile sp s" by simp
  with w have "s = takeWhile sp s @ strip_with sp s @ w" by simp
  then show ?thesis by blast
qed

lemma py_in_strip:
  assumes "m \<noteq> []" "\<not> py_isspace (hd m)" "\<not> py_isspace (last m)"
  shows "py_in m (py_strip s) = py_in m s"
proof
  assume "py_in m (py_strip s)"
  then obtain a b where e: "py_strip s = a @ m @ b" unfolding py_in_iff by blast
  obtain u v where "s = u @ py_strip s @ v"
    unfolding py_strip_def using strip_with_inside by blast
  with e have "s = (u @ a) @ m @ (b @ v)" by simp
  then show "py_in m s" unfolding py_in_iff by blast
next
  assume "py_in m s"
  then obtain a b where e: "s = a @ m @ b" unfolding py_in_iff by blast
  from strip_with_keeps_middle [OF assms, of a b] e
  show "py_in m (py_strip s)" unfolding py_in_iff py_strip_def by simp
qed

lemma markers_in_strip:
  "py_in odd_week_marker (py_strip s) = py_in odd_week_marker s"
  "py_in even_week_marker (py_strip s) = py_in even_week_marker s"
  by (rule py_in_strip; simp add: odd_week_marker_def even_week_marker_def py_isspace_def)+

text \<open>
  Claim C3, as amended. The two modifiers are honoured as a union. When the odd marker
  is in the text and the even marker is not, the result is the odd ones of the listed
  weeks; when the even marker is in the text and the odd marker is not, the even ones;
  when neither or both markers are in the text, every listed week is kept. The weeks 1 to
  15 with the odd marker give the odd numbers from 1 to 15, the weeks 2 to 16 with the
  even marker the even numbers from 2 to 16.
\<close>

theorem odd_even_filter_union:
  "(py_in odd_week_marker s \<and> \<not> py_in even_week_marker s \<longrightarrow>
      fst (parse_weeks (PyStr s)) = filter (\<lambda>w. w mod 2 = 1) (listed_weeks s) \<and>
      (\<forall>w\<in>set (fst (parse_weeks (PyStr s))). w mod 2 = 1)) \<and>
   (py_in even_week_marker s \<and> \<not> py_in odd_week_marker s \<longrightarrow>
      fst (parse_weeks (PyStr s)) = filter (\<lambda>w. w mod 2 = 0) (listed_weeks s) \<and>
      (\<forall>w\<in>set (fst (parse_weeks (PyStr s))). w mod 2 = 0)) \<and>
   (py_in odd_week_marker s = py_in even_week_marker s \<longrightarrow>
      fst (parse_weeks (PyStr s)) = listed_weeks s) \<and>
   parse_weeks (PyStr [49, 45, 49, 53, 21333, 21608]) = ([1, 3, 5, 7, 9, 11, 13, 15], []) \<and>
   parse_weeks (PyStr [50, 45, 49, 54, 21452, 21608]) = ([2, 4, 6, 8, 10, 12, 14, 16], [])"
proof -
  let ?io = "py_in odd_week_marker s"
  let ?ie = "py_in even_week_marker s"
  note f = parse_weeks_filter [of s, unfolded markers_in_strip]
  have a: "?io \<and> \<not> ?ie \<longrightarrow>
      fst (parse_weeks (PyStr s)) = filter (\<lambda>w. w mod 2 = 1) (listed_weeks s) \<and>
      (\<forall>w\<in>set (fst (parse_weeks (PyStr s))). w mod 2 = 1)"
    using f by (auto simp: keep_week_funs)
  have b: "?ie \<and> \<not> ?io \<longrightarrow>
      fst (parse_weeks (PyStr s)) = filter (\<lambda>w. w mod 2 = 0) (listed_weeks s) \<and>
      (\<forall>w\<in>set (fst (parse_weeks (PyStr s))). w mod 2 = 0)"
    using f by (auto simp: keep_week_funs)
  have c: "?io = ?ie \<longrightarrow> fst (parse_weeks (PyStr s)) = listed_weeks s"
    using f by (cases ?io) (auto simp: keep_week_funs)
  from a b c parse_weeks_odd_example parse_weeks_even_example show ?thesis by blast
qed


theorem odd_even_filter_union_witness:
  "py_in odd_week_marker [49, 45, 49, 53, 21333, 21608] \<and>
   \<not> py_in even_week_marker [49, 45, 49, 53, 21333, 21608] \<and>
   listed_weeks [49, 45, 49, 53, 21333, 21608] =
     [1, 2, 3, 4, 5, 6, 7, 8, 9, 10, 11, 12, 13, 14, 15] \<and>
   fst (parse_weeks (PyStr [49, 45, 49, 53, 21333, 21608])) =
     filter (\<lambda>w. w mod 2 = 1) [1, 2, 3, 4, 5, 6, 7, 8, 9, 10, 11, 12, 13, 14, 15] \<and>
   py_in even_week_marker [50, 45, 49, 54, 21452, 21608] \<and>
   \<not> py_in odd_week_marker [50, 45, 49, 54, 21452, 21608] \<and>
   listed_weeks [50, 45, 49, 54, 21452, 21608] =
     [2, 3, 4, 5, 6, 7, 8, 9, 10, 11, 12, 13, 14, 15, 16] \<and>
   fst (parse_weeks (PyStr [50, 45, 49, 54, 21452, 21608])) =
     filter (\<lambda>w. w mod 2 = 0) [2, 3, 4, 5, 6, 7, 8, 9, 10, 11, 12, 13, 14, 15, 16] \<and>
   py_in odd_week_marker example_both_markers \<and>
   py_in even_week_marker example_both_markers \<and>
   fst (parse_weeks (PyStr example_both_markers)) = listed_weeks example_both_markers"
proof -
  have m: "py_in odd_week_marker [49, 45, 49, 53, 21333, 21608]"
    "\<not> py_in even_week_marker [49, 45, 49, 53, 21333, 21608]"
    "py_in even_week_marker [50, 45, 49, 54, 21452, 21608]"
    "\<not> py_in odd_week_marker [50, 45, 49, 54, 21452, 21608]"
    by (simp_all add: odd_week_marker_def even_week_marker_def)
  have l: "listed_weeks [49, 45, 49, 53, 21333, 21608] =
     [1, 2, 3, 4, 5, 6, 7, 8, 9, 10, 11, 12, 13, 14, 15]"
    "listed_weeks [50, 45, 49, 54, 21452, 21608] =
     [2, 3, 4, 5, 6, 7, 8, 9, 10, 11, 12, 13, 14, 15, 16]"
    by (simp_all add: listed_weeks_def eval_defs upto.simps)
  have p: "py_in odd_week_marker example_both_markers"
    "py_in even_week_marker example_both_markers"
    using both_markers_present by (simp_all only: markers_in_strip)
  from odd_even_filter_union [of "[49, 45, 49, 53, 21333, 21608]"] m
  have o: "fst (parse_weeks (PyStr [49, 45, 49, 53, 21333, 21608])) =
      filter (\<lambda>w. w mod 2 = 1) (listed_weeks [49, 45, 49, 53, 21333, 21608])"
    by blast
  from odd_even_filter_union [of "[50, 45, 49, 54, 21452, 21608]"] m
  have e: "fst (parse_weeks (PyStr [50, 45, 49, 54, 21452, 21608])) =
      filter (\<lambda>w. w mod 2 = 0) (listed_weeks [50, 45, 49, 54, 21452, 21608])"
    by blast
  from odd_even_filter_union [of example_both_markers] p
  have b: "fst (parse_weeks (PyStr example_both_markers)) = listed_weeks example_both_markers"
    by blast
  from m l o e b p show ?thesis by (simp only:) simp
qed

text \<open>
  Claim C3, as stated, fails: in the text of the weeks 1 to 4 with both markers the odd
  marker is present, and the result holds the even week 2.
\<close>

theorem both_markers_keep_all_counterexample:
  "py_in odd_week_marker example_both_markers \<and>
   parse_weeks (PyStr example_both_markers) = ([1, 2, 3, 4], []) \<and>
   (2::int) \<in> set [1, 2, 3, 4] \<and> (2::int) mod 2 \<noteq> 1"
  using parse_weeks_both_example
  by (simp add: example_both_markers_def odd_week_marker_def)

lemma range_texts_split:
  "ps \<noteq> [] \<Longrightarrow>
   py_split 44 (join_commas (map (\<lambda>(x, y). range_text x y) ps)) =
     map (\<lambda>(x, y). range_text x y) ps"
proof -
  assume "ps \<noteq> []"
  then have n: "map (\<lambda>(x, y). range_text x y) ps \<noteq> []" by simp
  have "\<forall>t\<in>set (map (\<lambda>(x, y). range_text x y) ps). 44 \<notin> set t"
    using range_text_chars by fastforce
  from py_split_join [OF n this] show ?thesis .
qed

lemma range_texts_plain:
  "\<forall>c\<in>set (join_commas (map (\<lambda>(x, y). range_text x y) ps)).
     (48 \<le> c \<and> c < 58) \<or> c = 45 \<or> c = 44"
proof (rule join_commas_chars)
  show "\<forall>t\<in>set (map (\<lambda>(x, y). range_text x y) ps). \<forall>c\<in>set t.
      (48 \<le> c \<and> c < 58) \<or> c = 45 \<or> c = 44"
    using range_text_chars by fastforce
  show "(48 \<le> (44::nat) \<and> (44::nat) < 58) \<or> (44::nat) = 45 \<or> (44::nat) = 44" by simp
qed

lemma parse_weeks_ranges:
  "parse_weeks (PyStr (join_commas (map (\<lambda>(x, y). range_text x y) ps))) =
     (sort (remdups (concat (map (\<lambda>(x, y). [int x..int y]) ps))), [])"
proof (cases "ps = []")
  case True
  then show ?thesis by (simp add: parse_weeks_def)
next
  case False
  let ?t = "join_commas (map (\<lambda>(x, y). range_text x y) ps)"
  obtain x y qs where ps: "ps = (x, y) # qs" using False by (cases ps) auto
  have "45 \<in> set (range_text x y)" by (simp add: range_text_def)
  then have ne: "?t \<noteq> []" unfolding ps by (cases qs) auto
  have sp: "\<forall>c\<in>set ?t. \<not> py_isspace c"
    using range_texts_plain [of ps] plain_not_space by blast
  have st: "py_strip ?t = ?t"
    unfolding py_strip_def by (rule strip_with_id [OF sp])
  have nm: "21608 \<notin> set ?t"
    using range_texts_plain [of ps] by fastforce
  have k: "(\<lambda>(x, y). filter (keep_week False False) [int x..int y]) =
      (\<lambda>(x, y). [int x..int y])"
    by (simp add: keep_all)
  show ?thesis
    using ne markers_absent [OF nm]
    by (simp add: parse_weeks_def Let_def st without_markers_absent [OF nm]
        range_texts_split [OF False] parse_parts_ranges k)
qed

text \<open>
  Claim C2. For the text of a range of two numbers \<open>a \<le> b\<close> with a hyphen,
  \<open>parse_weeks\<close> returns exactly the integers from \<open>a\<close> to \<open>b\<close>, ascending, and prints
  nothing. For such ranges joined with commas it returns the sorted list, without
  duplicates, of the union of the ranges. The text of the ranges 1 to 8 and 10 to 16
  gives the weeks 1 to 8 and 10 to 16, without the week 9.
\<close>

theorem week_ranges_parsed:
  "(a \<le> b \<longrightarrow> parse_weeks (PyStr (range_text a b)) = ([int a..int b], [])) \<and>
   ((\<forall>(x, y)\<in>set ps. x \<le> y) \<longrightarrow>
      parse_weeks (PyStr (join_commas (map (\<lambda>(x, y). range_text x y) ps))) =
        (sorted_list_of_set (\<Union>(x, y)\<in>set ps. {int x..int y}), []) \<and>
      sorted (fst (parse_weeks (PyStr (join_commas (map (\<lambda>(x, y). range_text x y) ps))))) \<and>
      distinct (fst (parse_weeks (PyStr (join_commas (map (\<lambda>(x, y). range_text x y) ps))))) \<and>
      set (fst (parse_weeks (PyStr (join_commas (map (\<lambda>(x, y). range_text x y) ps))))) =
        (\<Union>(x, y)\<in>set ps. {int x..int y})) \<and>
   parse_weeks (PyStr [49, 45, 56, 44, 49, 48, 45, 49, 54]) =
     ([1, 2, 3, 4, 5, 6, 7, 8, 10, 11, 12, 13, 14, 15, 16], []) \<and>
   9 \<notin> set (fst (parse_weeks (PyStr [49, 45, 56, 44, 49, 48, 45, 49, 54])))"
proof -
  have one: "parse_weeks (PyStr (range_text a b)) = ([int a..int b], [])"
    using parse_weeks_ranges [of "[(a, b)]"] by (simp add: distinct_remdups_id)
  let ?t = "join_commas (map (\<lambda>(x, y). range_text x y) ps)"
  let ?ws = "concat (map (\<lambda>(x, y). [int x..int y]) ps)"
  have s: "set ?ws = (\<Union>(x, y)\<in>set ps. {int x..int y})" by auto
  have many: "parse_weeks (PyStr ?t) =
      (sorted_list_of_set (\<Union>(x, y)\<in>set ps. {int x..int y}), [])"
    using parse_weeks_ranges [of ps] sorted_list_of_set_sort_remdups [of ?ws]
    by (simp only: s)
  have props: "sorted (fst (parse_weeks (PyStr ?t)))" "distinct (fst (parse_weeks (PyStr ?t)))"
    "set (fst (parse_weeks (PyStr ?t))) = (\<Union>(x, y)\<in>set ps. {int x..int y})"
    using s by (simp_all add: parse_weeks_ranges)
  have ex: "parse_weeks (PyStr [49, 45, 56, 44, 49, 48, 45, 49, 54]) =
     ([1, 2, 3, 4, 5, 6, 7, 8, 10, 11, 12, 13, 14, 15, 16], [])"
    by (simp add: eval_defs upto.simps)
  have nine: "9 \<notin> set (fst (parse_weeks (PyStr [49, 45, 56, 44, 49, 48, 45, 49, 54])))"
    by (simp add: ex)
  from one many props ex nine show ?thesis by blast
qed

lemma str_nat_examples:
  "str_nat (Suc 0) = [49]" "str_nat 8 = [56]" "str_nat 3 = [51]" "str_nat 5 = [53]"
  "str_nat 10 = [49, 48]" "str_nat 16 = [49, 54]"
  by (simp_all add: str_nat.simps [of "Suc 0"] str_nat.simps [of 8] str_nat.simps [of 3]
      str_nat.simps [of 5] str_nat.simps [of 10] str_nat.simps [of 16])

theorem week_ranges_parsed_witness:
  "(1::nat) \<le> 8 \<and> (10::nat) \<le> 16 \<and>
   join_commas (map (\<lambda>(x, y). range_text x y) [(1, 8), (10, 16)]) =
     [49, 45, 56, 44, 49, 48, 45, 49, 54] \<and>
   set (fst (parse_weeks (PyStr [49, 45, 56, 44, 49, 48, 45, 49, 54]))) =
     {1..8} \<union> {10..16} \<and>
   sorted (fst (parse_weeks (PyStr [49, 45, 56, 44, 49, 48, 45, 49, 54]))) \<and>
   distinct (fst (parse_weeks (PyStr [49, 45, 56, 44, 49, 48, 45, 49, 54]))) \<and>
   (3::nat) \<le> 5 \<and> range_text 3 5 = [51, 45, 53] \<and>
   parse_weeks (PyStr [51, 45, 53]) = ([int 3..int 5], [])"
proof -
  have h: "\<forall>(x, y)\<in>set [(1, 8), (10, 16::nat)]. x \<le> y" by simp
  have t: "join_commas (map (\<lambda>(x, y). range_text x y) [(1, 8), (10, 16)]) =
     [49, 45, 56, 44, 49, 48, 45, 49, 54]"
    by (simp add: range_text_def str_nat_examples)
  have r: "range_text 3 5 = [51, 45, 53]"
    by (simp add: range_text_def str_nat_examples)
  have l: "(3::nat) \<le> 5" by simp
  have u: "(\<Union>(x, y)\<in>set [(1, 8), (10, 16::nat)]. {int x..int y}) = {1..8} \<union> {10..16}"
    by simp
  from week_ranges_parsed [of 3 5 "[(1, 8), (10, 16)]"] h l
  have a: "parse_weeks (PyStr (range_text 3 5)) = ([int 3..int 5], [])"
    and b: "set (fst (parse_weeks
          (PyStr (join_commas (map (\<lambda>(x, y). range_text x y) [(1, 8), (10, 16)]))))) =
        (\<Union>(x, y)\<in>set [(1, 8), (10, 16::nat)]. {int x..int y})"
    and c: "sorted (fst (parse_weeks
          (PyStr (join_commas (map (\<lambda>(x, y). range_text x y) [(1, 8), (10, 16)])))))"
      "distinct (fst (parse_weeks
          (PyStr (join_commas (map (\<lambda>(x, y). range_text x y) [(1, 8), (10, 16)])))))"
    by blast+
  have k: "(1::nat) \<le> 8 \<and> (10::nat) \<le> 16" by simp
  from a b c k l show ?thesis unfolding t r u by blast
qed

end
